theory Spec2Isabelle
  imports Main "HOL-Library.Char_ord" "HOL-Library.List_Lexorder"
begin

section \<open>Data model (src/types/memory.ts)\<close>

text \<open>
  The string-literal union types of the source are datatypes. The two unions that share the
  literal \<open>"investigating"\<close> get distinct constructor names.
\<close>

datatype IncidentStatus = Investigating | Resolved | Escalated
datatype Severity = Critical | High | Medium | Low
datatype HypothesisStatus = H_investigating | H_confirmed_root_cause | H_ruled_out
datatype Confidence = C_high | C_medium | C_low
datatype EventSource = Logs | User | Agent | Metrics
datatype FindingType = F_error | F_metric | F_config_change
datatype Proposer = By_agent | By_user

record Metadata =
  started_at :: string
  status :: IncidentStatus
  severity :: Severity
  affected_services :: "string list"
  investigator :: string

record TLDR =
  summary :: string
  last_updated :: string

record TimelineEvent =
  timestamp :: string
  event :: string
  source :: EventSource
  details :: string

text \<open>An optional field of the source (\<open>ruled_out_at?\<close>, \<open>value?\<close>) is an \<open>option\<close>.\<close>

record Hypothesis =
  h_id :: string
  title :: string
  proposed_at :: string
  proposed_by :: Proposer
  h_status :: HypothesisStatus
  confidence :: Confidence
  supporting_evidence :: "string list"
  counter_evidence :: "string list"
  ruled_out_at :: "string option"

record Finding =
  f_type :: FindingType
  description :: string
  service :: string
  f_timestamp :: string
  f_value :: "string option"

record RuledOutEntry =
  hypothesis :: string
  reason :: string
  r_ruled_out_at :: string

record IncidentMemory =
  incident_id :: string
  incident_name :: string
  metadata :: Metadata
  tldr :: TLDR
  timeline :: "TimelineEvent list"
  hypotheses :: "Hypothesis list"
  findings :: "Finding list"
  ruled_out :: "RuledOutEntry list"

section \<open>Errors\<close>

text \<open>
  Every \<open>throw new Error(...)\<close> of the source is a value; \<open>message\<close> gives the text the
  source puts into the \<open>Error\<close>. \<open>StorageFailure\<close> is the error that \<open>loadMemory\<close>
  rethrows when reading or parsing fails for a reason other than a missing file, and
  \<open>CollaboratorFailure\<close> is an error raised by the external log-query client.
\<close>

datatype error =
    IncidentNotFound string
  | HypothesisNotFound string
  | UnknownMemoryTool string
  | StorageFailure
  | CollaboratorFailure string

fun message :: "error \<Rightarrow> string" where
  "message (IncidentNotFound i) = ''Incident '' @ i @ '' not found''"
| "message (HypothesisNotFound h) = ''Hypothesis '' @ h @ '' not found''"
| "message (UnknownMemoryTool t) = ''Unknown memory tool: '' @ t"
| "message StorageFailure = ''storage failure''"
| "message (CollaboratorFailure s) = s"

section \<open>Persistence layer (memory/storage.ts)\<close>

text \<open>
  A file either parses to a record or does not. \<open>JSON.stringify\<close> followed by \<open>JSON.parse\<close> is
  the identity on the records of this model (an \<open>undefined\<close> optional field is left out of
  the document and is absent again after parsing).
\<close>

datatype content = Document IncidentMemory | Unparsable

text \<open>
  The store is what the process sees of its platform: the working directory
  (\<open>process.cwd()\<close>), the platform's \<open>join\<close> of path segments, the platform's
  \<open>String.prototype.localeCompare\<close>, and the files. \<open>join\<close> and \<open>localeCompare\<close> are not
  functions of this repository, so they are components of the store and nothing is said
  about them but what a theorem assumes. The type \<open>'p\<close> of the files' names is left open:
  \<open>path_join\<close> maps the segments to the file they name. Two incident ids may name the same
  file (\<open>join\<close> normalises \<open>./inc_1\<close> to \<open>inc_1\<close>), so a record is found by the file that an
  id names and not by the id itself. \<open>localeCompare\<close> is a collation that depends on the
  locale and is not the comparison of the strings character by character.
\<close>

record 'p store =
  cwd :: string
  path_join :: "string list \<Rightarrow> 'p"
  localeCompare :: "string \<Rightarrow> string \<Rightarrow> int"
  files :: "'p \<rightharpoonup> content"

definition MEMORY_DIR :: string where
  "MEMORY_DIR = ''investigations''"

definition getMemoryFilePath :: "'p store \<Rightarrow> string \<Rightarrow> 'p" where
  "getMemoryFilePath fs incidentId = path_join fs [cwd fs, MEMORY_DIR, incidentId @ ''.json'']"

definition loadMemory :: "'p store \<Rightarrow> string \<Rightarrow> error + IncidentMemory option" where
  "loadMemory fs incidentId =
     (case files fs (getMemoryFilePath fs incidentId) of
        None \<Rightarrow> Inr None
      | Some Unparsable \<Rightarrow> Inl StorageFailure
      | Some (Document memory) \<Rightarrow> Inr (Some memory))"

definition saveMemory :: "IncidentMemory \<Rightarrow> 'p store \<Rightarrow> 'p store" where
  "saveMemory memory fs =
     fs\<lparr> files := (files fs)(getMemoryFilePath fs (incident_id memory) \<mapsto> Document memory) \<rparr>"

definition memoryExists :: "'p store \<Rightarrow> string \<Rightarrow> bool" where
  "memoryExists fs incidentId = (files fs (getMemoryFilePath fs incidentId) \<noteq> None)"

text \<open>
  The store of a process that starts in directory \<open>c\<close> on a platform with the join \<open>j\<close> and
  the collation \<open>l\<close>, with no file written yet.
\<close>

definition empty_store ::
  "string \<Rightarrow> (string list \<Rightarrow> 'p) \<Rightarrow> (string \<Rightarrow> string \<Rightarrow> int) \<Rightarrow> 'p store" where
  "empty_store c j l = \<lparr> cwd = c, path_join = j, localeCompare = l, files = Map.empty \<rparr>"

section \<open>Library functions of the platform\<close>

text \<open>
  The template literal \<open>`hyp_${count}`\<close> renders a number in decimal.
\<close>

fun digit_char :: "nat \<Rightarrow> char" where
  "digit_char d =
     (if d = 0 then CHR ''0'' else if d = 1 then CHR ''1'' else if d = 2 then CHR ''2''
      else if d = 3 then CHR ''3'' else if d = 4 then CHR ''4'' else if d = 5 then CHR ''5''
      else if d = 6 then CHR ''6'' else if d = 7 then CHR ''7'' else if d = 8 then CHR ''8''
      else CHR ''9'')"

fun string_of_nat :: "nat \<Rightarrow> string" where
  "string_of_nat n =
     (if n < 10 then [digit_char n] else string_of_nat (n div 10) @ [digit_char (n mod 10)])"

text \<open>
  \<open>Array.prototype.sort(comparefn)\<close> is a stable sort: the elements are inserted from left
  to right, each one behind every element that the comparison does not place after it.
\<close>

fun insert_by :: "('a \<Rightarrow> 'a \<Rightarrow> int) \<Rightarrow> 'a \<Rightarrow> 'a list \<Rightarrow> 'a list" where
  "insert_by cmp x [] = [x]"
| "insert_by cmp x (y # ys) = (if cmp y x \<le> 0 then y # insert_by cmp x ys else x # y # ys)"

definition array_sort :: "('a \<Rightarrow> 'a \<Rightarrow> int) \<Rightarrow> 'a list \<Rightarrow> 'a list" where
  "array_sort cmp xs = foldl (\<lambda>acc x. insert_by cmp x acc) [] xs"

text \<open>
  \<open>xs.find(p)\<close> is \<^const>\<open>List.find\<close>. The source mutates the object that \<open>find\<close> returned,
  which is the first matching element of the array itself: \<open>update_first\<close>.
\<close>

fun update_first :: "('a \<Rightarrow> bool) \<Rightarrow> ('a \<Rightarrow> 'a) \<Rightarrow> 'a list \<Rightarrow> 'a list" where
  "update_first p f [] = []"
| "update_first p f (x # xs) = (if p x then f x # xs else x # update_first p f xs)"

text \<open>
  For the examples, \<open>join\<close> of \<open>node:path\<close> as it is on a POSIX system, for a first segment
  that is an absolute path (as \<open>process.cwd()\<close> is): the segments are split at \<open>/\<close>, empty
  names and \<open>.\<close> are dropped and \<open>..\<close> leaves the directory reached so far (the root stays
  the root). A file is named by the list of directory names that leads to it from the root.
\<close>

fun split_on :: "char \<Rightarrow> string \<Rightarrow> string list" where
  "split_on c [] = [[]]"
| "split_on c (x # xs) =
     (if x = c then [] # split_on c xs
      else (case split_on c xs of [] \<Rightarrow> [[x]] | y # ys \<Rightarrow> (x # y) # ys))"

fun normalize_names :: "string list \<Rightarrow> string list \<Rightarrow> string list" where
  "normalize_names seen [] = rev seen"
| "normalize_names seen (n # ns) =
     (if n = [] \<or> n = ''.'' then normalize_names seen ns
      else if n = ''..'' then normalize_names (tl seen) ns
      else normalize_names (n # seen) ns)"

definition posix_join :: "string list \<Rightarrow> string list" where
  "posix_join segments = normalize_names [] (concat (map (split_on CHR ''/'') segments))"

text \<open>
  For the examples, a three-way comparison that orders two strings by their characters.
  The timestamps of the examples have one shape, on which a collation gives the same.
\<close>

definition code_unit_compare :: "string \<Rightarrow> string \<Rightarrow> int" where
  "code_unit_compare a b = (if a < b then - 1 else if a = b then 0 else 1)"

section \<open>Operations (memory/operations.ts)\<close>

text \<open>
  The current time (\<open>utcNow()\<close>) and the generated incident id are inputs from the
  environment, so they are parameters. An operation returns the record and the new store,
  or the error it throws; every \<open>throw\<close> happens before \<open>saveMemory\<close>, so an error leaves
  the store as it was.
\<close>

definition generateHypothesisId :: "IncidentMemory \<Rightarrow> string" where
  "generateHypothesisId memory =
     (let count = length (hypotheses memory) + 1 in ''hyp_'' @ string_of_nat count)"

record CreateIncidentParams =
  c_name :: string
  c_severity :: Severity
  c_affected_services :: "string list"
  c_investigator :: string
  c_initial_description :: string

definition createIncident ::
  "string \<Rightarrow> string \<Rightarrow> CreateIncidentParams \<Rightarrow> 'p store \<Rightarrow> error + (IncidentMemory \<times> 'p store)" where
  "createIncident generated_id now params fs =
     (let memory =
        \<lparr> incident_id = generated_id,
          incident_name = c_name params,
          metadata = \<lparr> started_at = now, status = Investigating,
                       severity = c_severity params,
                       affected_services = c_affected_services params,
                       investigator = c_investigator params \<rparr>,
          tldr = \<lparr> summary = c_initial_description params, last_updated = now \<rparr>,
          timeline = [\<lparr> timestamp = now, event = ''Investigation started'',
                         source = User, details = c_initial_description params \<rparr>],
          hypotheses = [],
          findings = [],
          ruled_out = [] \<rparr>
      in Inr (memory, saveMemory memory fs))"

record AddTimelineEventParams =
  e_incident_id :: string
  e_event :: string
  e_source :: EventSource
  e_details :: string
  e_timestamp :: "string option"

definition addTimelineEvent ::
  "string \<Rightarrow> AddTimelineEventParams \<Rightarrow> 'p store \<Rightarrow> error + (IncidentMemory \<times> 'p store)" where
  "addTimelineEvent now params fs =
     (case loadMemory fs (e_incident_id params) of
        Inl err \<Rightarrow> Inl err
      | Inr None \<Rightarrow> Inl (IncidentNotFound (e_incident_id params))
      | Inr (Some memory) \<Rightarrow>
          (let newEvent = \<lparr> timestamp = (case e_timestamp params of Some t \<Rightarrow> t | None \<Rightarrow> now),
                            event = e_event params, source = e_source params,
                            details = e_details params \<rparr>;
               memory' = memory\<lparr> timeline :=
                 array_sort (\<lambda>a b. localeCompare fs (timestamp a) (timestamp b))
                   (timeline memory @ [newEvent]) \<rparr>
           in Inr (memory', saveMemory memory' fs)))"

record ProposeHypothesisParams =
  ph_incident_id :: string
  ph_title :: string
  ph_proposed_by :: Proposer
  ph_initial_evidence :: "string list"
  ph_confidence :: Confidence

definition proposeHypothesis ::
  "string \<Rightarrow> ProposeHypothesisParams \<Rightarrow> 'p store \<Rightarrow> error + (IncidentMemory \<times> 'p store)" where
  "proposeHypothesis now params fs =
     (case loadMemory fs (ph_incident_id params) of
        Inl err \<Rightarrow> Inl err
      | Inr None \<Rightarrow> Inl (IncidentNotFound (ph_incident_id params))
      | Inr (Some memory) \<Rightarrow>
          (let hyp = \<lparr> h_id = generateHypothesisId memory,
                       title = ph_title params,
                       proposed_at = now,
                       proposed_by = ph_proposed_by params,
                       h_status = H_investigating,
                       confidence = ph_confidence params,
                       supporting_evidence = ph_initial_evidence params,
                       counter_evidence = [],
                       ruled_out_at = None \<rparr>;
               memory' = memory\<lparr> hypotheses := hypotheses memory @ [hyp] \<rparr>
           in Inr (memory', saveMemory memory' fs)))"

record UpdateHypothesisParams =
  uh_incident_id :: string
  uh_hypothesis_id :: string
  uh_add_supporting_evidence :: "string list option"
  uh_add_counter_evidence :: "string list option"
  uh_new_confidence :: "Confidence option"

definition updateHypothesis ::
  "UpdateHypothesisParams \<Rightarrow> 'p store \<Rightarrow> error + (IncidentMemory \<times> 'p store)" where
  "updateHypothesis params fs =
     (case loadMemory fs (uh_incident_id params) of
        Inl err \<Rightarrow> Inl err
      | Inr None \<Rightarrow> Inl (IncidentNotFound (uh_incident_id params))
      | Inr (Some memory) \<Rightarrow>
          (case find (\<lambda>h. h_id h = uh_hypothesis_id params) (hypotheses memory) of
             None \<Rightarrow> Inl (HypothesisNotFound (uh_hypothesis_id params))
           | Some _ \<Rightarrow>
               (let mutate = (\<lambda>h.
                      let h1 = (case uh_add_supporting_evidence params of
                                  Some ev \<Rightarrow> h\<lparr> supporting_evidence := supporting_evidence h @ ev \<rparr>
                                | None \<Rightarrow> h);
                          h2 = (case uh_add_counter_evidence params of
                                  Some ev \<Rightarrow> h1\<lparr> counter_evidence := counter_evidence h1 @ ev \<rparr>
                                | None \<Rightarrow> h1)
                      in (case uh_new_confidence params of
                            Some c \<Rightarrow> h2\<lparr> confidence := c \<rparr>
                          | None \<Rightarrow> h2));
                    memory' = memory\<lparr> hypotheses :=
                      update_first (\<lambda>h. h_id h = uh_hypothesis_id params) mutate
                        (hypotheses memory) \<rparr>
                in Inr (memory', saveMemory memory' fs))))"

record RuleOutHypothesisParams =
  ro_incident_id :: string
  ro_hypothesis_id :: string
  ro_reason :: string

definition ruleOutHypothesis ::
  "string \<Rightarrow> RuleOutHypothesisParams \<Rightarrow> 'p store \<Rightarrow> error + (IncidentMemory \<times> 'p store)" where
  "ruleOutHypothesis now params fs =
     (case loadMemory fs (ro_incident_id params) of
        Inl err \<Rightarrow> Inl err
      | Inr None \<Rightarrow> Inl (IncidentNotFound (ro_incident_id params))
      | Inr (Some memory) \<Rightarrow>
          (case find (\<lambda>h. h_id h = ro_hypothesis_id params) (hypotheses memory) of
             None \<Rightarrow> Inl (HypothesisNotFound (ro_hypothesis_id params))
           | Some hyp \<Rightarrow>
               (let memory' = memory\<lparr>
                      hypotheses :=
                        update_first (\<lambda>h. h_id h = ro_hypothesis_id params)
                          (\<lambda>h. h\<lparr> h_status := H_ruled_out, ruled_out_at := Some now \<rparr>)
                          (hypotheses memory),
                      ruled_out := ruled_out memory @
                        [\<lparr> hypothesis = title hyp, reason = ro_reason params,
                           r_ruled_out_at = now \<rparr>] \<rparr>
                in Inr (memory', saveMemory memory' fs))))"

record ConfirmRootCauseParams =
  cr_incident_id :: string
  cr_hypothesis_id :: string

text \<open>\<open>confirmRootCause\<close> reads the clock twice: for the summary and for the timeline entry.\<close>

definition confirmRootCause ::
  "string \<Rightarrow> string \<Rightarrow> ConfirmRootCauseParams \<Rightarrow> 'p store \<Rightarrow> error + (IncidentMemory \<times> 'p store)" where
  "confirmRootCause now1 now2 params fs =
     (case loadMemory fs (cr_incident_id params) of
        Inl err \<Rightarrow> Inl err
      | Inr None \<Rightarrow> Inl (IncidentNotFound (cr_incident_id params))
      | Inr (Some memory) \<Rightarrow>
          (case find (\<lambda>h. h_id h = cr_hypothesis_id params) (hypotheses memory) of
             None \<Rightarrow> Inl (HypothesisNotFound (cr_hypothesis_id params))
           | Some hyp \<Rightarrow>
               (let memory' = memory\<lparr>
                      hypotheses :=
                        update_first (\<lambda>h. h_id h = cr_hypothesis_id params)
                          (\<lambda>h. h\<lparr> h_status := H_confirmed_root_cause \<rparr>)
                          (hypotheses memory),
                      metadata := (metadata memory)\<lparr> status := Resolved \<rparr>,
                      tldr := \<lparr> summary = ''Root cause confirmed: '' @ title hyp,
                                last_updated = now1 \<rparr>,
                      timeline := timeline memory @
                        [\<lparr> timestamp = now2, event = ''Root cause confirmed'',
                           source = User, details = title hyp \<rparr>] \<rparr>
                in Inr (memory', saveMemory memory' fs))))"

record AddFindingParams =
  af_incident_id :: string
  af_type :: FindingType
  af_description :: string
  af_service :: string
  af_timestamp :: string
  af_value :: "string option"

definition addFinding ::
  "AddFindingParams \<Rightarrow> 'p store \<Rightarrow> error + (IncidentMemory \<times> 'p store)" where
  "addFinding params fs =
     (case loadMemory fs (af_incident_id params) of
        Inl err \<Rightarrow> Inl err
      | Inr None \<Rightarrow> Inl (IncidentNotFound (af_incident_id params))
      | Inr (Some memory) \<Rightarrow>
          (let finding = \<lparr> f_type = af_type params, description = af_description params,
                           service = af_service params, f_timestamp = af_timestamp params,
                           f_value = af_value params \<rparr>;
               memory' = memory\<lparr> findings := findings memory @ [finding] \<rparr>
           in Inr (memory', saveMemory memory' fs)))"

record UpdateTLDRParams =
  ut_incident_id :: string
  ut_summary :: string

definition updateTLDR ::
  "string \<Rightarrow> UpdateTLDRParams \<Rightarrow> 'p store \<Rightarrow> error + (IncidentMemory \<times> 'p store)" where
  "updateTLDR now params fs =
     (case loadMemory fs (ut_incident_id params) of
        Inl err \<Rightarrow> Inl err
      | Inr None \<Rightarrow> Inl (IncidentNotFound (ut_incident_id params))
      | Inr (Some memory) \<Rightarrow>
          (let memory' = memory\<lparr> tldr := \<lparr> summary = ut_summary params, last_updated = now \<rparr> \<rparr>
           in Inr (memory', saveMemory memory' fs)))"

subsection \<open>Read operations\<close>

definition getIncident :: "'p store \<Rightarrow> string \<Rightarrow> error + IncidentMemory option" where
  "getIncident fs incidentId = loadMemory fs incidentId"

definition getHypotheses :: "'p store \<Rightarrow> string \<Rightarrow> error + Hypothesis list" where
  "getHypotheses fs incidentId =
     (case loadMemory fs incidentId of
        Inl err \<Rightarrow> Inl err
      | Inr None \<Rightarrow> Inl (IncidentNotFound incidentId)
      | Inr (Some memory) \<Rightarrow> Inr (hypotheses memory))"

definition getTimeline :: "'p store \<Rightarrow> string \<Rightarrow> error + TimelineEvent list" where
  "getTimeline fs incidentId =
     (case loadMemory fs incidentId of
        Inl err \<Rightarrow> Inl err
      | Inr None \<Rightarrow> Inl (IncidentNotFound incidentId)
      | Inr (Some memory) \<Rightarrow> Inr (timeline memory))"

section \<open>Sequences of operations\<close>

text \<open>
  One write operation of the state machine together with what it reads from the environment
  (clock readings, the generated incident id). The three read operations do not write.
\<close>

datatype operation =
    CreateIncident string string CreateIncidentParams
  | AddTimelineEvent string AddTimelineEventParams
  | ProposeHypothesis string ProposeHypothesisParams
  | UpdateHypothesis UpdateHypothesisParams
  | RuleOutHypothesis string RuleOutHypothesisParams
  | ConfirmRootCause string string ConfirmRootCauseParams
  | AddFinding AddFindingParams
  | UpdateTLDR string UpdateTLDRParams

fun apply_op :: "operation \<Rightarrow> 'p store \<Rightarrow> error + (IncidentMemory \<times> 'p store)" where
  "apply_op (CreateIncident generated_id now params) fs = createIncident generated_id now params fs"
| "apply_op (AddTimelineEvent now params) fs = addTimelineEvent now params fs"
| "apply_op (ProposeHypothesis now params) fs = proposeHypothesis now params fs"
| "apply_op (UpdateHypothesis params) fs = updateHypothesis params fs"
| "apply_op (RuleOutHypothesis now params) fs = ruleOutHypothesis now params fs"
| "apply_op (ConfirmRootCause now1 now2 params) fs = confirmRootCause now1 now2 params fs"
| "apply_op (AddFinding params) fs = addFinding params fs"
| "apply_op (UpdateTLDR now params) fs = updateTLDR now params fs"

text \<open>An operation that throws leaves the store unchanged; the caller goes on.\<close>

definition exec_op :: "operation \<Rightarrow> 'p store \<Rightarrow> 'p store" where
  "exec_op op fs = (case apply_op op fs of Inl _ \<Rightarrow> fs | Inr (_, fs') \<Rightarrow> fs')"

fun run :: "operation list \<Rightarrow> 'p store \<Rightarrow> 'p store" where
  "run [] fs = fs"
| "run (op # ops) fs = run ops (exec_op op fs)"

text \<open>A property of the operation and the store it meets, checked at every step of a run.\<close>

fun along :: "(operation \<Rightarrow> 'p store \<Rightarrow> bool) \<Rightarrow> operation list \<Rightarrow> 'p store \<Rightarrow> bool" where
  "along P [] fs = True"
| "along P (op # ops) fs = (P op fs \<and> along P ops (exec_op op fs))"

text \<open>
  The hypothesis that an operation is about to mark: the one \<open>find\<close> returns in
  \<open>ruleOutHypothesis\<close>, respectively in \<open>confirmRootCause\<close>.
\<close>

definition lookup_hypothesis :: "'p store \<Rightarrow> string \<Rightarrow> string \<Rightarrow> Hypothesis option" where
  "lookup_hypothesis fs incidentId hypothesisId =
     (case loadMemory fs incidentId of
        Inr (Some memory) \<Rightarrow> find (\<lambda>h. h_id h = hypothesisId) (hypotheses memory)
      | _ \<Rightarrow> None)"

fun rule_out_target :: "operation \<Rightarrow> 'p store \<Rightarrow> Hypothesis option" where
  "rule_out_target (RuleOutHypothesis now params) fs =
     lookup_hypothesis fs (ro_incident_id params) (ro_hypothesis_id params)"
| "rule_out_target _ fs = None"

fun confirm_target :: "operation \<Rightarrow> 'p store \<Rightarrow> Hypothesis option" where
  "confirm_target (ConfirmRootCause now1 now2 params) fs =
     lookup_hypothesis fs (cr_incident_id params) (cr_hypothesis_id params)"
| "confirm_target _ fs = None"

definition spares_confirmed :: "operation \<Rightarrow> 'p store \<Rightarrow> bool" where
  "spares_confirmed op fs =
     (case rule_out_target op fs of
        None \<Rightarrow> True
      | Some h \<Rightarrow> h_status h \<noteq> H_confirmed_root_cause)"

definition spares_ruled_out :: "operation \<Rightarrow> 'p store \<Rightarrow> bool" where
  "spares_ruled_out op fs =
     (case confirm_target op fs of
        None \<Rightarrow> True
      | Some h \<Rightarrow> h_status h \<noteq> H_ruled_out)"

text \<open>
  Whether an operation writes a new record into the file \<open>q\<close>, and whether it marks the
  hypothesis \<open>hid\<close> of the record in the file \<open>q\<close>. Both go by the file that the incident id
  of the operation names.
\<close>

fun creates :: "'p store \<Rightarrow> 'p \<Rightarrow> operation \<Rightarrow> bool" where
  "creates fs q (CreateIncident generated_id now params) =
     (getMemoryFilePath fs generated_id = q)"
| "creates fs q _ = False"

fun addresses :: "'p store \<Rightarrow> 'p \<Rightarrow> string \<Rightarrow> operation \<Rightarrow> bool" where
  "addresses fs q hid (RuleOutHypothesis now params) =
     (getMemoryFilePath fs (ro_incident_id params) = q \<and> ro_hypothesis_id params = hid)"
| "addresses fs q hid (ConfirmRootCause now1 now2 params) =
     (getMemoryFilePath fs (cr_incident_id params) = q \<and> cr_hypothesis_id params = hid)"
| "addresses fs q hid _ = False"

section \<open>Tool dispatch (tools/memory-tools.ts, agent/agent.ts, mcp/client.ts)\<close>

text \<open>
  \<open>memoryToolNames\<close> is the set of the names of \<open>memoryTools\<close>, in the order of the source.
\<close>

definition memoryToolNames :: "string list" where
  "memoryToolNames =
     [''create_incident'', ''get_incident'', ''list_incidents'', ''add_timeline_event'',
      ''propose_hypothesis'', ''update_hypothesis'', ''rule_out_hypothesis'',
      ''confirm_root_cause'', ''add_finding'', ''update_tldr'', ''get_hypotheses'',
      ''get_timeline'']"

datatype memory_call =
    Call_createIncident | Call_getIncident | Call_listIncidents | Call_addTimelineEvent
  | Call_proposeHypothesis | Call_updateHypothesis | Call_ruleOutHypothesis
  | Call_confirmRootCause | Call_addFinding | Call_updateTLDR | Call_getHypotheses
  | Call_getTimeline

text \<open>
  The \<open>switch\<close> of \<open>executeMemoryTool\<close>, case by case in the order of the source. Each case
  casts the fields of the input bag and calls one operation of the state machine; the
  parameter \<open>call\<close> stands for these bodies, so the input bag stays of any type \<open>'i\<close>.
  The \<open>default\<close> case throws.
\<close>

definition executeMemoryTool ::
  "(memory_call \<Rightarrow> 'i \<Rightarrow> error + 'r) \<Rightarrow> string \<Rightarrow> 'i \<Rightarrow> error + 'r" where
  "executeMemoryTool call toolName toolInput =
     (if toolName = ''create_incident'' then call Call_createIncident toolInput
      else if toolName = ''get_incident'' then call Call_getIncident toolInput
      else if toolName = ''list_incidents'' then call Call_listIncidents toolInput
      else if toolName = ''add_timeline_event'' then call Call_addTimelineEvent toolInput
      else if toolName = ''propose_hypothesis'' then call Call_proposeHypothesis toolInput
      else if toolName = ''update_hypothesis'' then call Call_updateHypothesis toolInput
      else if toolName = ''rule_out_hypothesis'' then call Call_ruleOutHypothesis toolInput
      else if toolName = ''confirm_root_cause'' then call Call_confirmRootCause toolInput
      else if toolName = ''add_finding'' then call Call_addFinding toolInput
      else if toolName = ''update_tldr'' then call Call_updateTLDR toolInput
      else if toolName = ''get_hypotheses'' then call Call_getHypotheses toolInput
      else if toolName = ''get_timeline'' then call Call_getTimeline toolInput
      else Inl (UnknownMemoryTool toolName))"

text \<open>
  \<open>executeMcpTool\<close> hands the name and the arguments to the external log-query client; the
  parameter \<open>callTool\<close> is that client together with the decoding of its answer.
\<close>

definition executeMcpTool ::
  "(string \<Rightarrow> 'i \<Rightarrow> error + 'r) \<Rightarrow> string \<Rightarrow> 'i \<Rightarrow> error + 'r" where
  "executeMcpTool callTool toolName toolArgs = callTool toolName toolArgs"

text \<open>
  \<open>executeTool\<close> never throws: the \<open>catch\<close> turns every error into the object
  \<open>{ error: message }\<close>.
\<close>

datatype 'r outcome = Result 'r | ErrorObject string

definition executeTool ::
  "(memory_call \<Rightarrow> 'i \<Rightarrow> error + 'r) \<Rightarrow> (string \<Rightarrow> 'i \<Rightarrow> error + 'r) \<Rightarrow> string \<Rightarrow> 'i \<Rightarrow> 'r outcome" where
  "executeTool call callTool toolName toolInput =
     (case (if toolName \<in> set memoryToolNames
            then executeMemoryTool call toolName toolInput
            else executeMcpTool callTool toolName toolInput) of
        Inr result \<Rightarrow> Result result
      | Inl err \<Rightarrow> ErrorObject (message err))"

section \<open>Properties of records and stores\<close>

definition every_record :: "(IncidentMemory \<Rightarrow> bool) \<Rightarrow> 'p store \<Rightarrow> bool" where
  "every_record Q fs = (\<forall>q m. files fs q = Some (Document m) \<longrightarrow> Q m)"

definition stored_under_own_id :: "'p store \<Rightarrow> bool" where
  "stored_under_own_id fs =
     (\<forall>q m. files fs q = Some (Document m) \<longrightarrow> getMemoryFilePath fs (incident_id m) = q)"

definition resolved_if_confirmed :: "IncidentMemory \<Rightarrow> bool" where
  "resolved_if_confirmed m =
     ((\<exists>h \<in> set (hypotheses m). h_status h = H_confirmed_root_cause) \<longrightarrow>
      status (metadata m) = Resolved)"

definition confirmed_if_resolved :: "IncidentMemory \<Rightarrow> bool" where
  "confirmed_if_resolved m =
     (status (metadata m) = Resolved \<longrightarrow>
      (\<exists>h \<in> set (hypotheses m). h_status h = H_confirmed_root_cause))"

definition stamped_if_ruled_out :: "IncidentMemory \<Rightarrow> bool" where
  "stamped_if_ruled_out m =
     (\<forall>h \<in> set (hypotheses m). h_status h = H_ruled_out \<longrightarrow> ruled_out_at h \<noteq> None)"

definition ruled_out_if_stamped :: "IncidentMemory \<Rightarrow> bool" where
  "ruled_out_if_stamped m =
     (\<forall>h \<in> set (hypotheses m). ruled_out_at h \<noteq> None \<longrightarrow> h_status h = H_ruled_out)"

definition numbered_ids :: "IncidentMemory \<Rightarrow> bool" where
  "numbered_ids m =
     (map h_id (hypotheses m) =
      map (\<lambda>i. ''hyp_'' @ string_of_nat (Suc i)) [0..<length (hypotheses m)])"

text \<open>What identifies a hypothesis and is never written after it was proposed.\<close>

definition same_hypothesis :: "Hypothesis \<Rightarrow> Hypothesis \<Rightarrow> bool" where
  "same_hypothesis h h' =
     (h_id h' = h_id h \<and> title h' = title h \<and> proposed_at h' = proposed_at h \<and>
      proposed_by h' = proposed_by h)"

subsection \<open>Timestamps and the clock\<close>

text \<open>
  The shape of the timestamps that \<open>utcNow\<close> writes (\<open>toISOString\<close>):
  \<open>YYYY-MM-DDTHH:mm:ss.sssZ\<close>. On strings of this one shape the order of the strings is
  the order of the times they denote. Two such strings differ in digits only, so a
  collation that orders the digits as usual places them as the comparison of the strings
  character by character does: \<open>orders_iso\<close> says that of a comparison.
\<close>

definition is_digit :: "char \<Rightarrow> bool" where
  "is_digit c = (CHR ''0'' \<le> c \<and> c \<le> CHR ''9'')"

fun has_shape :: "string \<Rightarrow> string \<Rightarrow> bool" where
  "has_shape [] [] = True"
| "has_shape (p # ps) (c # cs) =
     ((if p = CHR ''d'' then is_digit c else c = p) \<and> has_shape ps cs)"
| "has_shape _ _ = False"

definition iso_utc :: "string \<Rightarrow> bool" where
  "iso_utc t = has_shape ''dddd-dd-ddTdd:dd:dd.dddZ'' t"

definition orders_iso :: "(string \<Rightarrow> string \<Rightarrow> int) \<Rightarrow> bool" where
  "orders_iso cmp = (\<forall>a b. iso_utc a \<longrightarrow> iso_utc b \<longrightarrow> (cmp a b \<le> 0 \<longleftrightarrow> a \<le> b))"

text \<open>
  The time at which an operation is called and the later readings of the clock it makes,
  in the order of the readings; the timestamp that the caller of \<open>addTimelineEvent\<close>
  supplies; whether that timestamp is historical, that is, not after the time of the call.
\<close>

fun clock_readings :: "operation \<Rightarrow> string list" where
  "clock_readings (CreateIncident generated_id now params) = [now]"
| "clock_readings (AddTimelineEvent now params) = [now]"
| "clock_readings (ProposeHypothesis now params) = [now]"
| "clock_readings (UpdateHypothesis params) = []"
| "clock_readings (RuleOutHypothesis now params) = [now]"
| "clock_readings (ConfirmRootCause now1 now2 params) = [now1, now2]"
| "clock_readings (AddFinding params) = []"
| "clock_readings (UpdateTLDR now params) = [now]"

fun supplied_timestamp :: "operation \<Rightarrow> string option" where
  "supplied_timestamp (AddTimelineEvent now params) = e_timestamp params"
| "supplied_timestamp _ = None"

definition historical :: "operation \<Rightarrow> bool" where
  "historical op =
     (case supplied_timestamp op of
        None \<Rightarrow> True
      | Some t \<Rightarrow> list_all (\<lambda>now. t \<le> now) (clock_readings op))"



section \<open>Example data\<close>

text \<open>
  The scenario of the spec, in a process that runs in \<open>/srv/first-responder\<close> on a POSIX
  system: an incident, a hypothesis proposed on it, and the operations that rule it out or
  confirm it at a given clock reading. \<open>demo_early_event\<close> records an event of half an hour
  before the incident was created; \<open>demo_late_event\<close> records an event whose timestamp lies
  a day after the clock readings of the other operations.
\<close>

definition demo_store :: "string list store" where
  "demo_store = empty_store ''/srv/first-responder'' posix_join code_unit_compare"

definition demo_create :: operation where
  "demo_create = CreateIncident ''inc_1'' ''2026-01-01T09:00:00.000Z''
     \<lparr> c_name = ''Checkout 500 Errors'', c_severity = Critical,
       c_affected_services = [''checkout-api''], c_investigator = ''alice'',
       c_initial_description = ''Users report 500s at checkout'' \<rparr>"

definition demo_propose_params :: ProposeHypothesisParams where
  "demo_propose_params =
     \<lparr> ph_incident_id = ''inc_1'', ph_title = ''DB pool exhaustion'',
       ph_proposed_by = By_agent, ph_initial_evidence = [''connection timeouts''],
       ph_confidence = C_medium \<rparr>"

definition demo_propose :: operation where
  "demo_propose = ProposeHypothesis ''2026-01-01T09:05:00.000Z'' demo_propose_params"

definition demo_update :: UpdateHypothesisParams where
  "demo_update =
     \<lparr> uh_incident_id = ''inc_1'', uh_hypothesis_id = ''hyp_1'',
       uh_add_supporting_evidence = None, uh_add_counter_evidence = None,
       uh_new_confidence = None \<rparr>"

definition demo_rule_out_params :: RuleOutHypothesisParams where
  "demo_rule_out_params =
     \<lparr> ro_incident_id = ''inc_1'', ro_hypothesis_id = ''hyp_1'',
       ro_reason = ''timeouts unrelated to pool size'' \<rparr>"

definition demo_rule_out :: "string \<Rightarrow> operation" where
  "demo_rule_out now = RuleOutHypothesis now demo_rule_out_params"

definition demo_confirm :: "string \<Rightarrow> operation" where
  "demo_confirm now =
     ConfirmRootCause now now \<lparr> cr_incident_id = ''inc_1'', cr_hypothesis_id = ''hyp_1'' \<rparr>"

definition demo_early_event :: operation where
  "demo_early_event = AddTimelineEvent ''2026-01-01T09:02:00.000Z''
     \<lparr> e_incident_id = ''inc_1'', e_event = ''Error spike detected'', e_source = Logs,
       e_details = ''500s on checkout-api'',
       e_timestamp = Some ''2026-01-01T08:30:00.000Z'' \<rparr>"

definition demo_late_event :: operation where
  "demo_late_event = AddTimelineEvent ''2026-01-01T09:02:00.000Z''
     \<lparr> e_incident_id = ''inc_1'', e_event = ''Maintenance window'', e_source = User,
       e_details = ''planned'', e_timestamp = Some ''2026-01-02T00:00:00.000Z'' \<rparr>"

text \<open>The hypothesis as \<open>demo_propose\<close> stores it, and the timeline entry of \<open>demo_create\<close>.\<close>

definition demo_hypothesis :: Hypothesis where
  "demo_hypothesis =
     \<lparr> h_id = ''hyp_1'', title = ''DB pool exhaustion'',
       proposed_at = ''2026-01-01T09:05:00.000Z'', proposed_by = By_agent,
       h_status = H_investigating, confidence = C_medium,
       supporting_evidence = [''connection timeouts''], counter_evidence = [],
       ruled_out_at = None \<rparr>"

definition demo_started :: TimelineEvent where
  "demo_started =
     \<lparr> timestamp = ''2026-01-01T09:00:00.000Z'', event = ''Investigation started'',
       source = User, details = ''Users report 500s at checkout'' \<rparr>"

text \<open>
  The record after \<open>demo_create\<close>, \<open>demo_propose\<close>, a confirmation at 09:10 and, at 09:20, a
  rule-out of the same hypothesis.
\<close>

definition demo_confirmed_then_ruled_out :: IncidentMemory where
  "demo_confirmed_then_ruled_out =
     \<lparr> incident_id = ''inc_1'', incident_name = ''Checkout 500 Errors'',
       metadata = \<lparr> started_at = ''2026-01-01T09:00:00.000Z'', status = Resolved,
                    severity = Critical, affected_services = [''checkout-api''],
                    investigator = ''alice'' \<rparr>,
       tldr = \<lparr> summary = ''Root cause confirmed: DB pool exhaustion'',
                last_updated = ''2026-01-01T09:10:00.000Z'' \<rparr>,
       timeline = [demo_started,
                   \<lparr> timestamp = ''2026-01-01T09:10:00.000Z'', event = ''Root cause confirmed'',
                     source = User, details = ''DB pool exhaustion'' \<rparr>],
       hypotheses = [demo_hypothesis\<lparr> h_status := H_ruled_out,
                                      ruled_out_at := Some ''2026-01-01T09:20:00.000Z'' \<rparr>],
       findings = [],
       ruled_out = [\<lparr> hypothesis = ''DB pool exhaustion'',
                      reason = ''timeouts unrelated to pool size'',
                      r_ruled_out_at = ''2026-01-01T09:20:00.000Z'' \<rparr>] \<rparr>"

text \<open>
  The hypothesis after \<open>demo_create\<close>, \<open>demo_propose\<close>, a rule-out at 09:10 and, at 09:20, a
  confirmation of the same hypothesis.
\<close>

definition demo_ruled_out_then_confirmed :: Hypothesis where
  "demo_ruled_out_then_confirmed =
     demo_hypothesis\<lparr> h_status := H_confirmed_root_cause,
                       ruled_out_at := Some ''2026-01-01T09:10:00.000Z'' \<rparr>"

text \<open>
  The timeline after \<open>demo_create\<close>, \<open>demo_late_event\<close>, \<open>demo_propose\<close> and a confirmation
  at 09:10.
\<close>

definition demo_late :: TimelineEvent where
  "demo_late =
     \<lparr> timestamp = ''2026-01-02T00:00:00.000Z'', event = ''Maintenance window'',
       source = User, details = ''planned'' \<rparr>"

definition demo_unsorted_timeline :: "TimelineEvent list" where
  "demo_unsorted_timeline =
     [demo_started, demo_late,
      \<lparr> timestamp = ''2026-01-01T09:10:00.000Z'', event = ''Root cause confirmed'',
        source = User, details = ''DB pool exhaustion'' \<rparr>]"

text \<open>Two log-query collaborators: one answers every name, one knows a single tool.\<close>

definition demo_call :: "memory_call \<Rightarrow> string \<Rightarrow> error + string" where
  "demo_call c toolInput = Inr ''memory''"

definition lenient_collaborator :: "string \<Rightarrow> string \<Rightarrow> error + string" where
  "lenient_collaborator toolName toolArgs = Inr (''answer to '' @ toolName)"

definition strict_collaborator :: "string \<Rightarrow> string \<Rightarrow> error + string" where
  "strict_collaborator toolName toolArgs =
     (if toolName = ''list_log_entries'' then Inr ''entries''
      else Inl (CollaboratorFailure (''Tool '' @ toolName @ '' not found'')))"

section \<open>Auxiliary facts\<close>

declare string_of_nat.simps [simp del]

lemmas demo_defs =
  demo_create_def demo_propose_params_def demo_propose_def demo_update_def demo_late_def
  demo_unsorted_timeline_def demo_rule_out_params_def demo_rule_out_def
  demo_confirm_def demo_early_event_def demo_late_event_def demo_hypothesis_def
  demo_started_def demo_confirmed_then_ruled_out_def demo_ruled_out_then_confirmed_def

lemmas op_defs =
  exec_op_def createIncident_def addTimelineEvent_def proposeHypothesis_def
  updateHypothesis_def ruleOutHypothesis_def confirmRootCause_def addFinding_def
  updateTLDR_def loadMemory_def generateHypothesisId_def Let_def
  array_sort_def code_unit_compare_def string_of_nat.simps getIncident_def getHypotheses_def
  getTimeline_def

subsection \<open>Files and the names of files\<close>

lemma files_saveMemory [simp]:
  "files (saveMemory m fs) = (files fs)(getMemoryFilePath fs (incident_id m) \<mapsto> Document m)"
  by (simp add: saveMemory_def)

lemma getMemoryFilePath_saveMemory [simp]:
  "getMemoryFilePath (saveMemory m fs) = getMemoryFilePath fs"
  by (simp add: fun_eq_iff getMemoryFilePath_def saveMemory_def)

lemma localeCompare_saveMemory [simp]: "localeCompare (saveMemory m fs) = localeCompare fs"
  by (simp add: saveMemory_def)

lemma files_empty_store [simp]: "files (empty_store c j l) = Map.empty"
  by (simp add: empty_store_def)

lemma localeCompare_empty_store [simp]: "localeCompare (empty_store c j l) = l"
  by (simp add: empty_store_def)

lemma localeCompare_demo_store [simp]: "localeCompare demo_store = code_unit_compare"
  by (simp add: demo_store_def)

lemma files_demo_store [simp]: "files demo_store = Map.empty"
  by (simp add: demo_store_def)

lemma loadMemory_Some_iff:
  "loadMemory fs k = Inr (Some m) \<longleftrightarrow> files fs (getMemoryFilePath fs k) = Some (Document m)"
  by (auto simp: loadMemory_def split: option.splits content.splits)

lemma loadMemory_None_iff:
  "loadMemory fs k = Inr None \<longleftrightarrow> files fs (getMemoryFilePath fs k) = None"
  by (auto simp: loadMemory_def split: option.splits content.splits)

text \<open>On a POSIX system \<open>./inc_1\<close> and \<open>inc_1\<close> name the same file.\<close>

lemma demo_same_file:
  "getMemoryFilePath demo_store ''./inc_1'' = getMemoryFilePath demo_store ''inc_1''"
  by (simp add: getMemoryFilePath_def demo_store_def empty_store_def posix_join_def
      MEMORY_DIR_def)

subsection \<open>Mutating the element that \<open>find\<close> returned\<close>

lemma length_update_first: "length (update_first p f xs) = length xs"
  by (induction xs) auto

lemma update_first_same:
  "(\<And>x. x \<in> set xs \<Longrightarrow> p x \<Longrightarrow> f x = x) \<Longrightarrow> update_first p f xs = xs"
  by (induction xs) auto

lemma map_update_first: "(\<And>x. g (f x) = g x) \<Longrightarrow> map g (update_first p f xs) = map g xs"
  by (induction xs) auto

lemma set_update_first:
  "y \<in> set (update_first p f xs) \<Longrightarrow> y \<in> set xs \<or> (\<exists>x \<in> set xs. p x \<and> y = f x)"
  by (induction xs) (auto split: if_splits)

lemma update_first_keeps:
  "y \<in> set xs \<Longrightarrow> find p xs = Some h \<Longrightarrow> y \<noteq> h \<Longrightarrow> y \<in> set (update_first p f xs)"
  by (induction xs) (auto split: if_splits)

lemma update_first_target: "find p xs = Some h \<Longrightarrow> f h \<in> set (update_first p f xs)"
  by (induction xs) (auto split: if_splits)

lemma find_update_first:
  "find p xs = Some h \<Longrightarrow>
     \<exists>j < length xs. xs ! j = h \<and> p h \<and> (\<forall>i < j. \<not> p (xs ! i)) \<and>
       update_first p f xs = xs[j := f h]"
proof (induction xs)
  case Nil
  then show ?case by simp
next
  case (Cons x xs)
  show ?case
  proof (cases "p x")
    case True
    with Cons.prems have "x = h" by simp
    with True show ?thesis by (intro exI[of _ 0]) simp
  next
    case False
    with Cons.prems have "find p xs = Some h" by simp
    from Cons.IH[OF this] obtain j where j: "j < length xs" "xs ! j = h" "p h"
      "\<forall>i < j. \<not> p (xs ! i)" "update_first p f xs = xs[j := f h]" by blast
    have "\<forall>i < Suc j. \<not> p ((x # xs) ! i)"
      using False j(4) by (auto simp: less_Suc_eq_0_disj)
    with j False show ?thesis by (intro exI[of _ "Suc j"]) simp
  qed
qed

section \<open>Creating an incident\<close>

text \<open>
  Claim C7. For every input, \<open>createIncident\<close> returns a record and persists it (loading
  its id afterwards yields the record). The record has status investigating, the
  description as summary, no hypotheses, findings or ruled-out entries, and a timeline of
  exactly one entry, labelled "Investigation started", from source user, with the
  description as detail.
\<close>

theorem createIncident_initial_record:
  "\<exists>memory fs' ev.
     createIncident generated_id now params fs = Inr (memory, fs') \<and>
     loadMemory fs' (incident_id memory) = Inr (Some memory) \<and>
     status (metadata memory) = Investigating \<and>
     summary (tldr memory) = c_initial_description params \<and>
     hypotheses memory = [] \<and> findings memory = [] \<and> ruled_out memory = [] \<and>
     timeline memory = [ev] \<and>
     event ev = ''Investigation started'' \<and> source ev = User \<and>
     details ev = c_initial_description params"
  by (simp add: createIncident_def loadMemory_def Let_def)

section \<open>Reading an incident that does not exist\<close>

text \<open>
  Claim C3, as the code has it. For an id that names no file of the store, \<open>loadMemory\<close>
  yields the absent result and so does \<open>getIncident\<close>, which returns what \<open>loadMemory\<close>
  returns; \<open>getHypotheses\<close> and \<open>getTimeline\<close> fail with the not-found error of that id.
\<close>

theorem read_of_missing_incident:
  "files fs (getMemoryFilePath fs incidentId) = None \<Longrightarrow>
     loadMemory fs incidentId = Inr None \<and>
     getIncident fs incidentId = Inr None \<and>
     getHypotheses fs incidentId = Inl (IncidentNotFound incidentId) \<and>
     getTimeline fs incidentId = Inl (IncidentNotFound incidentId)"
  by (simp add: loadMemory_def getIncident_def getHypotheses_def getTimeline_def)

theorem read_of_missing_incident_witness:
  "files demo_store (getMemoryFilePath demo_store ''inc_never_created'') = None \<and>
   loadMemory demo_store ''inc_never_created'' = Inr None \<and>
   getIncident demo_store ''inc_never_created'' = Inr None \<and>
   getHypotheses demo_store ''inc_never_created'' = Inl (IncidentNotFound ''inc_never_created'') \<and>
   getTimeline demo_store ''inc_never_created'' = Inl (IncidentNotFound ''inc_never_created'')"
  using read_of_missing_incident [of demo_store "''inc_never_created''"] by simp

text \<open>
  The claim as stated asks \<open>getIncident\<close> to fail with the not-found error as well. On the
  store without files it returns the absent result instead.
\<close>

theorem getIncident_missing_is_no_error:
  "getIncident demo_store ''inc_never_created'' = Inr None \<and>
   getIncident demo_store ''inc_never_created'' \<noteq> Inl (IncidentNotFound ''inc_never_created'')"
  by (simp add: getIncident_def loadMemory_def)

section \<open>Updating a hypothesis with no optional field\<close>

text \<open>
  Claim C8. On an existing record that has a hypothesis of the given id, \<open>updateHypothesis\<close>
  with no evidence to add and no new confidence returns the record as it was, so the
  hypothesis that \<open>find\<close> returns has the same evidence lists and confidence as before, and
  the record is persisted: it is saved into the file that its own id names, and loading
  the incident id afterwards yields the same record.
\<close>

theorem updateHypothesis_without_fields:
  assumes "loadMemory fs (uh_incident_id params) = Inr (Some memory)"
    and "find (\<lambda>h. h_id h = uh_hypothesis_id params) (hypotheses memory) = Some hyp"
    and "uh_add_supporting_evidence params = None"
    and "uh_add_counter_evidence params = None"
    and "uh_new_confidence params = None"
  shows "\<exists>memory' fs' hyp'.
           updateHypothesis params fs = Inr (memory', fs') \<and>
           find (\<lambda>h. h_id h = uh_hypothesis_id params) (hypotheses memory') = Some hyp' \<and>
           supporting_evidence hyp' = supporting_evidence hyp \<and>
           counter_evidence hyp' = counter_evidence hyp \<and>
           confidence hyp' = confidence hyp \<and>
           memory' = memory \<and>
           fs' = saveMemory memory fs \<and>
           files fs' (getMemoryFilePath fs (incident_id memory)) = Some (Document memory) \<and>
           loadMemory fs' (uh_incident_id params) = Inr (Some memory)"
  using assms
  by (auto simp: updateHypothesis_def update_first_same loadMemory_def Let_def
      split: option.splits content.splits)

theorem updateHypothesis_without_fields_witness:
  "\<exists>memory hyp fs'.
     loadMemory (run [demo_create, demo_propose] demo_store) ''inc_1'' = Inr (Some memory) \<and>
     find (\<lambda>h. h_id h = ''hyp_1'') (hypotheses memory) = Some hyp \<and>
     supporting_evidence hyp = [''connection timeouts''] \<and>
     updateHypothesis demo_update (run [demo_create, demo_propose] demo_store) = Inr (memory, fs') \<and>
     loadMemory fs' ''inc_1'' = Inr (Some memory)"
proof -
  obtain memory hyp where
    l: "loadMemory (run [demo_create, demo_propose] demo_store) (uh_incident_id demo_update)
          = Inr (Some memory)"
    and f: "find (\<lambda>h. h_id h = uh_hypothesis_id demo_update) (hypotheses memory) = Some hyp"
    and e: "supporting_evidence hyp = [''connection timeouts'']"
    by (simp add: demo_defs op_defs)
  have n: "uh_add_supporting_evidence demo_update = None"
    "uh_add_counter_evidence demo_update = None" "uh_new_confidence demo_update = None"
    by (simp_all add: demo_update_def)
  from updateHypothesis_without_fields [OF l f n] l f e show ?thesis
    by (auto simp: demo_update_def)
qed

section \<open>Successful operations, case by case\<close>

text \<open>
  What a successful operation read from the store and what it wrote: the record it returns
  is the loaded record with the fields the source assigns, saved under the record's own id.
\<close>

lemma apply_op_cases [consumes 1, case_names create event propose update rule_out confirm finding tldr]:
  assumes "apply_op op fs = Inr (m', fs')"
  obtains
    (create) g now p where "op = CreateIncident g now p"
      "createIncident g now p fs = Inr (m', fs')"
      "incident_id m' = g" "status (metadata m') = Investigating"
      "hypotheses m' = []"
      "timeline m' = [\<lparr> timestamp = now, event = ''Investigation started'', source = User,
                        details = c_initial_description p \<rparr>]"
      "fs' = saveMemory m' fs"
  | (event) now p m where "op = AddTimelineEvent now p"
      "files fs (getMemoryFilePath fs (e_incident_id p)) = Some (Document m)"
      "m' = m\<lparr> timeline := array_sort (\<lambda>a b. localeCompare fs (timestamp a) (timestamp b))
               (timeline m @ [\<lparr> timestamp = (case e_timestamp p of Some t \<Rightarrow> t | None \<Rightarrow> now),
                   event = e_event p, source = e_source p, details = e_details p \<rparr>]) \<rparr>"
      "fs' = saveMemory m' fs"
  | (propose) now p m where "op = ProposeHypothesis now p"
      "files fs (getMemoryFilePath fs (ph_incident_id p)) = Some (Document m)"
      "m' = m\<lparr> hypotheses := hypotheses m @
               [\<lparr> h_id = generateHypothesisId m, title = ph_title p, proposed_at = now,
                  proposed_by = ph_proposed_by p, h_status = H_investigating,
                  confidence = ph_confidence p, supporting_evidence = ph_initial_evidence p,
                  counter_evidence = [], ruled_out_at = None \<rparr>] \<rparr>"
      "fs' = saveMemory m' fs"
  | (update) p m hyp f where "op = UpdateHypothesis p"
      "files fs (getMemoryFilePath fs (uh_incident_id p)) = Some (Document m)"
      "find (\<lambda>h. h_id h = uh_hypothesis_id p) (hypotheses m) = Some hyp"
      "\<And>h. h_id (f h) = h_id h \<and> title (f h) = title h \<and> proposed_at (f h) = proposed_at h \<and>
            proposed_by (f h) = proposed_by h \<and> h_status (f h) = h_status h \<and>
            ruled_out_at (f h) = ruled_out_at h"
      "m' = m\<lparr> hypotheses := update_first (\<lambda>h. h_id h = uh_hypothesis_id p) f (hypotheses m) \<rparr>"
      "fs' = saveMemory m' fs"
  | (rule_out) now p m hyp where "op = RuleOutHypothesis now p"
      "files fs (getMemoryFilePath fs (ro_incident_id p)) = Some (Document m)"
      "find (\<lambda>h. h_id h = ro_hypothesis_id p) (hypotheses m) = Some hyp"
      "m' = m\<lparr> hypotheses := update_first (\<lambda>h. h_id h = ro_hypothesis_id p)
                 (\<lambda>h. h\<lparr> h_status := H_ruled_out, ruled_out_at := Some now \<rparr>) (hypotheses m),
               ruled_out := ruled_out m @
                 [\<lparr> hypothesis = title hyp, reason = ro_reason p, r_ruled_out_at = now \<rparr>] \<rparr>"
      "fs' = saveMemory m' fs"
  | (confirm) now1 now2 p m hyp where "op = ConfirmRootCause now1 now2 p"
      "files fs (getMemoryFilePath fs (cr_incident_id p)) = Some (Document m)"
      "find (\<lambda>h. h_id h = cr_hypothesis_id p) (hypotheses m) = Some hyp"
      "m' = m\<lparr> hypotheses := update_first (\<lambda>h. h_id h = cr_hypothesis_id p)
                 (\<lambda>h. h\<lparr> h_status := H_confirmed_root_cause \<rparr>) (hypotheses m),
               metadata := (metadata m)\<lparr> status := Resolved \<rparr>,
               tldr := \<lparr> summary = ''Root cause confirmed: '' @ title hyp, last_updated = now1 \<rparr>,
               timeline := timeline m @
                 [\<lparr> timestamp = now2, event = ''Root cause confirmed'', source = User,
                    details = title hyp \<rparr>] \<rparr>"
      "fs' = saveMemory m' fs"
  | (finding) p m where "op = AddFinding p"
      "files fs (getMemoryFilePath fs (af_incident_id p)) = Some (Document m)"
      "m' = m\<lparr> findings := findings m @
               [\<lparr> f_type = af_type p, description = af_description p, service = af_service p,
                  f_timestamp = af_timestamp p, f_value = af_value p \<rparr>] \<rparr>"
      "fs' = saveMemory m' fs"
  | (tldr) now p m where "op = UpdateTLDR now p"
      "files fs (getMemoryFilePath fs (ut_incident_id p)) = Some (Document m)"
      "m' = m\<lparr> tldr := \<lparr> summary = ut_summary p, last_updated = now \<rparr> \<rparr>"
      "fs' = saveMemory m' fs"
proof (cases op)
  case (CreateIncident g now p)
  with assms create show ?thesis
    by (auto simp: createIncident_def Let_def)
next
  case (AddTimelineEvent now p)
  with assms event show ?thesis
    by (auto simp: addTimelineEvent_def Let_def loadMemory_def
        split: option.splits content.splits)
next
  case (ProposeHypothesis now p)
  with assms propose show ?thesis
    by (auto simp: proposeHypothesis_def Let_def loadMemory_def
        split: option.splits content.splits)
next
  case (UpdateHypothesis p)
  let ?f = "\<lambda>h. let h1 = (case uh_add_supporting_evidence p of
                                  Some ev \<Rightarrow> h\<lparr> supporting_evidence := supporting_evidence h @ ev \<rparr>
                                | None \<Rightarrow> h);
                          h2 = (case uh_add_counter_evidence p of
                                  Some ev \<Rightarrow> h1\<lparr> counter_evidence := counter_evidence h1 @ ev \<rparr>
                                | None \<Rightarrow> h1)
                      in (case uh_new_confidence p of
                            Some c \<Rightarrow> h2\<lparr> confidence := c \<rparr>
                          | None \<Rightarrow> h2)"
  have f: "h_id (?f h) = h_id h \<and> title (?f h) = title h \<and> proposed_at (?f h) = proposed_at h \<and>
            proposed_by (?f h) = proposed_by h \<and> h_status (?f h) = h_status h \<and>
            ruled_out_at (?f h) = ruled_out_at h" for h :: Hypothesis
    by (simp add: Let_def split: option.splits)
  from assms UpdateHypothesis obtain m hyp where m:
    "files fs (getMemoryFilePath fs (uh_incident_id p)) = Some (Document m)"
    "find (\<lambda>h. h_id h = uh_hypothesis_id p) (hypotheses m) = Some hyp"
    "m' = m\<lparr> hypotheses := update_first (\<lambda>h. h_id h = uh_hypothesis_id p) ?f (hypotheses m) \<rparr>"
    "fs' = saveMemory m' fs"
    by (auto simp: updateHypothesis_def Let_def loadMemory_def
        split: option.splits content.splits)
  show ?thesis
    by (rule update[where f = ?f, OF UpdateHypothesis m(1) m(2) f m(3) m(4)])
next
  case (RuleOutHypothesis now p)
  with assms rule_out show ?thesis
    by (auto simp: ruleOutHypothesis_def Let_def loadMemory_def
        split: option.splits content.splits)
next
  case (ConfirmRootCause now1 now2 p)
  with assms confirm show ?thesis
    by (auto simp: confirmRootCause_def Let_def loadMemory_def
        split: option.splits content.splits)
next
  case (AddFinding p)
  with assms finding show ?thesis
    by (auto simp: addFinding_def Let_def loadMemory_def
        split: option.splits content.splits)
next
  case (UpdateTLDR now p)
  with assms tldr show ?thesis
    by (auto simp: updateTLDR_def Let_def loadMemory_def
        split: option.splits content.splits)
qed


lemma apply_op_store:
  assumes "apply_op op fs = Inr (m', fs')"
  shows "fs' = saveMemory m' fs"
  using assms by (cases rule: apply_op_cases) simp_all

lemma exec_op_cases:
  "exec_op op fs = fs \<or> (\<exists>m' fs'. apply_op op fs = Inr (m', fs') \<and> exec_op op fs = fs')"
  by (auto simp: exec_op_def split: sum.splits)

lemma run_invariant:
  assumes step: "\<And>op fs m' fs'. I fs \<Longrightarrow> apply_op op fs = Inr (m', fs') \<Longrightarrow> I fs'"
    and "I fs"
  shows "I (run ops fs)"
  using \<open>I fs\<close>
proof (induction ops arbitrary: fs)
  case Nil
  then show ?case by simp
next
  case (Cons op ops)
  from exec_op_cases[of op fs] Cons.prems step have "I (exec_op op fs)" by auto
  then show ?case using Cons.IH by simp
qed

lemma run_invariant_along:
  assumes step: "\<And>op fs m' fs'. I fs \<Longrightarrow> P op fs \<Longrightarrow> apply_op op fs = Inr (m', fs') \<Longrightarrow> I fs'"
    and "I fs" and "along P ops fs"
  shows "I (run ops fs)"
  using \<open>I fs\<close> \<open>along P ops fs\<close>
proof (induction ops arbitrary: fs)
  case Nil
  then show ?case by simp
next
  case (Cons op ops)
  from exec_op_cases[of op fs] Cons.prems step have "I (exec_op op fs)" by auto
  then show ?case using Cons.IH Cons.prems by simp
qed

lemma every_record_step:
  assumes "every_record Q fs" and "apply_op op fs = Inr (m', fs')" and "Q m'"
  shows "every_record Q fs'"
  using assms apply_op_store[OF assms(2)] by (auto simp: every_record_def)

lemma every_record_empty: "every_record Q (empty_store c j l)"
  by (simp add: every_record_def)

lemma every_recordD: "every_record Q fs \<Longrightarrow> files fs q = Some (Document m) \<Longrightarrow> Q m"
  by (simp add: every_record_def)

section \<open>Incident status and confirmed hypotheses\<close>

lemma confirmed_resolved_step:
  assumes "every_record resolved_if_confirmed fs" and "apply_op op fs = Inr (m', fs')"
  shows "resolved_if_confirmed m'"
  using assms(2)
proof (cases rule: apply_op_cases)
  case (update p m hyp f)
  with every_recordD[OF assms(1) update(2)] show ?thesis
    by (auto simp: resolved_if_confirmed_def dest!: set_update_first)
next
  case (rule_out now p m hyp)
  with every_recordD[OF assms(1) rule_out(2)] show ?thesis
    by (auto simp: resolved_if_confirmed_def dest!: set_update_first)
qed (auto simp: resolved_if_confirmed_def dest!: every_recordD[OF assms(1)])

lemma resolved_confirmed_step:
  assumes "every_record confirmed_if_resolved fs" and "spares_confirmed op fs"
    and "apply_op op fs = Inr (m', fs')"
  shows "confirmed_if_resolved m'"
  using assms(3)
proof (cases rule: apply_op_cases)
  case (update p m hyp f)
  from every_recordD[OF assms(1) update(2)] have old: "confirmed_if_resolved m" .
  show ?thesis
  proof (unfold confirmed_if_resolved_def, intro impI)
    assume "status (metadata m') = Resolved"
    with update old obtain h where h: "h \<in> set (hypotheses m)" "h_status h = H_confirmed_root_cause"
      by (auto simp: confirmed_if_resolved_def)
    show "\<exists>h \<in> set (hypotheses m'). h_status h = H_confirmed_root_cause"
    proof (cases "h = hyp")
      case True
      from update_first_target[OF update(3), of f] update(4)[of hyp] h True update(5)
      show ?thesis by (auto intro!: bexI[of _ "f hyp"])
    next
      case False
      from update_first_keeps[OF h(1) update(3) False, of f] h(2) update(5)
      show ?thesis by auto
    qed
  qed
next
  case (rule_out now p m hyp)
  from every_recordD[OF assms(1) rule_out(2)] have old: "confirmed_if_resolved m" .
  from assms(2) rule_out have nc: "h_status hyp \<noteq> H_confirmed_root_cause"
    by (simp add: spares_confirmed_def lookup_hypothesis_def loadMemory_def)
  show ?thesis
  proof (unfold confirmed_if_resolved_def, intro impI)
    assume "status (metadata m') = Resolved"
    with rule_out old obtain h where h: "h \<in> set (hypotheses m)" "h_status h = H_confirmed_root_cause"
      by (auto simp: confirmed_if_resolved_def)
    with nc have "h \<noteq> hyp" by auto
    from update_first_keeps[OF h(1) rule_out(3) this] h(2) rule_out(4)
    show "\<exists>h \<in> set (hypotheses m'). h_status h = H_confirmed_root_cause" by auto
  qed
next
  case (confirm now1 now2 p m hyp)
  from update_first_target[OF confirm(3), of "\<lambda>h. h\<lparr> h_status := H_confirmed_root_cause \<rparr>"] confirm(4)
  show ?thesis by (auto simp: confirmed_if_resolved_def intro!: bexI[of _ "hyp\<lparr> h_status := H_confirmed_root_cause \<rparr>"])
qed (auto simp: confirmed_if_resolved_def dest!: every_recordD[OF assms(1)])

text \<open>
  Claim C1, as the code has it. After every sequence of operations from a store without files,
  for every record: if some hypothesis has status confirmed_root_cause then the status of
  the incident is resolved. The converse holds after every sequence in which
  \<open>ruleOutHypothesis\<close> is never applied to a hypothesis that is confirmed at that moment;
  \<open>ruleOutHypothesis\<close> itself checks no status and never writes the incident status.
\<close>

theorem resolved_and_confirmed:
  assumes "files (run ops (empty_store c j l)) q = Some (Document memory)"
  shows "((\<exists>h \<in> set (hypotheses memory). h_status h = H_confirmed_root_cause) \<longrightarrow>
            status (metadata memory) = Resolved) \<and>
         (along spares_confirmed ops (empty_store c j l) \<longrightarrow>
            (status (metadata memory) = Resolved \<longleftrightarrow>
             (\<exists>h \<in> set (hypotheses memory). h_status h = H_confirmed_root_cause)))"
proof -
  have "every_record resolved_if_confirmed (run ops (empty_store c j l))"
    by (rule run_invariant[where I = "every_record resolved_if_confirmed"])
       (auto intro: every_record_step confirmed_resolved_step every_record_empty)
  from every_recordD[OF this assms] have a: "resolved_if_confirmed memory" .
  have b: "confirmed_if_resolved memory" if "along spares_confirmed ops (empty_store c j l)"
  proof -
    have "every_record confirmed_if_resolved (run ops (empty_store c j l))"
      by (rule run_invariant_along[where I = "every_record confirmed_if_resolved"
            and P = spares_confirmed, OF _ every_record_empty that])
         (auto intro: every_record_step resolved_confirmed_step)
    from every_recordD[OF this assms] show ?thesis .
  qed
  from a b show ?thesis
    by (auto simp: resolved_if_confirmed_def confirmed_if_resolved_def)
qed


theorem resolved_and_confirmed_witness:
  "\<exists>memory.
     files (run [demo_create, demo_propose, demo_confirm ''2026-01-01T09:10:00.000Z''] demo_store) (getMemoryFilePath demo_store ''inc_1'')
       = Some (Document memory) \<and>
     along spares_confirmed
       [demo_create, demo_propose, demo_confirm ''2026-01-01T09:10:00.000Z''] demo_store \<and>
     (\<exists>h \<in> set (hypotheses memory). h_status h = H_confirmed_root_cause) \<and>
     status (metadata memory) = Resolved"
proof -
  let ?ops = "[demo_create, demo_propose, demo_confirm ''2026-01-01T09:10:00.000Z'']"
  obtain memory where r: "files (run ?ops demo_store) (getMemoryFilePath demo_store ''inc_1'') = Some (Document memory)"
    and c: "\<exists>h \<in> set (hypotheses memory). h_status h = H_confirmed_root_cause"
    by (simp add: demo_defs op_defs)
  have a: "along spares_confirmed ?ops demo_store"
    by (simp add: demo_defs op_defs spares_confirmed_def lookup_hypothesis_def)
  from resolved_and_confirmed [OF r [unfolded demo_store_def]] c a r show ?thesis
    by (auto simp: demo_store_def)
qed

text \<open>
  The claim as stated includes a rule-out of a confirmed hypothesis. After one, the incident
  is still resolved and no hypothesis is confirmed.
\<close>

theorem resolved_without_confirmed_hypothesis:
  "getIncident
     (run [demo_create, demo_propose, demo_confirm ''2026-01-01T09:10:00.000Z'',
           demo_rule_out ''2026-01-01T09:20:00.000Z''] demo_store) ''inc_1''
     = Inr (Some demo_confirmed_then_ruled_out) \<and>
   status (metadata demo_confirmed_then_ruled_out) = Resolved \<and>
   \<not> (\<exists>h \<in> set (hypotheses demo_confirmed_then_ruled_out).
          h_status h = H_confirmed_root_cause)"
  by (simp add: demo_defs op_defs)

section \<open>The ruled-out timestamp of a hypothesis\<close>

lemma set_update_first_find:
  "find p xs = Some h \<Longrightarrow> y \<in> set (update_first p f xs) \<Longrightarrow> y \<in> set xs \<or> y = f h"
  by (induction xs) (auto split: if_splits)

lemma stamped_step:
  assumes "every_record stamped_if_ruled_out fs" and "apply_op op fs = Inr (m', fs')"
  shows "stamped_if_ruled_out m'"
  using assms(2)
proof (cases rule: apply_op_cases)
  case (update p m hyp f)
  with every_recordD[OF assms(1) update(2)] show ?thesis
    by (auto simp: stamped_if_ruled_out_def dest!: set_update_first)
next
  case (rule_out now p m hyp)
  with every_recordD[OF assms(1) rule_out(2)] show ?thesis
    by (auto simp: stamped_if_ruled_out_def dest!: set_update_first)
next
  case (confirm now1 now2 p m hyp)
  with every_recordD[OF assms(1) confirm(2)] show ?thesis
    by (auto simp: stamped_if_ruled_out_def dest!: set_update_first)
qed (auto simp: stamped_if_ruled_out_def dest!: every_recordD[OF assms(1)])

lemma ruled_out_step:
  assumes "every_record ruled_out_if_stamped fs" and "spares_ruled_out op fs"
    and "apply_op op fs = Inr (m', fs')"
  shows "ruled_out_if_stamped m'"
  using assms(3)
proof (cases rule: apply_op_cases)
  case (update p m hyp f)
  with every_recordD[OF assms(1) update(2)] show ?thesis
    by (auto simp: ruled_out_if_stamped_def dest!: set_update_first)
next
  case (rule_out now p m hyp)
  with every_recordD[OF assms(1) rule_out(2)] show ?thesis
    by (auto simp: ruled_out_if_stamped_def dest!: set_update_first)
next
  case (confirm now1 now2 p m hyp)
  from every_recordD[OF assms(1) confirm(2)] have old: "ruled_out_if_stamped m" .
  from assms(2) confirm have "h_status hyp \<noteq> H_ruled_out"
    by (simp add: spares_ruled_out_def lookup_hypothesis_def loadMemory_def)
  moreover have "hyp \<in> set (hypotheses m)"
    using confirm(3) by (auto simp: find_Some_iff)
  ultimately have "ruled_out_at hyp = None"
    using old by (auto simp: ruled_out_if_stamped_def)
  with old confirm(4) show ?thesis
    by (auto simp: ruled_out_if_stamped_def dest!: set_update_first_find[OF confirm(3)])
qed (auto simp: ruled_out_if_stamped_def dest!: every_recordD[OF assms(1)])

text \<open>
  Claim C2, as the code has it. After every sequence of operations from a store without files,
  every hypothesis with status ruled_out has its \<open>ruled_out_at\<close>. The converse holds after
  every sequence in which \<open>confirmRootCause\<close> is never applied to a hypothesis that is
  ruled out at that moment; \<open>confirmRootCause\<close> itself checks no status and leaves
  \<open>ruled_out_at\<close> as it is.
\<close>

theorem ruled_out_and_stamped:
  assumes "files (run ops (empty_store c j l)) q = Some (Document memory)"
    and "hyp \<in> set (hypotheses memory)"
  shows "(h_status hyp = H_ruled_out \<longrightarrow> ruled_out_at hyp \<noteq> None) \<and>
         (along spares_ruled_out ops (empty_store c j l) \<longrightarrow>
            (ruled_out_at hyp \<noteq> None \<longleftrightarrow> h_status hyp = H_ruled_out))"
proof -
  have "every_record stamped_if_ruled_out (run ops (empty_store c j l))"
    by (rule run_invariant[where I = "every_record stamped_if_ruled_out"])
       (auto intro: every_record_step stamped_step every_record_empty)
  from every_recordD[OF this assms(1)] have a: "stamped_if_ruled_out memory" .
  have b: "ruled_out_if_stamped memory" if "along spares_ruled_out ops (empty_store c j l)"
  proof -
    have "every_record ruled_out_if_stamped (run ops (empty_store c j l))"
      by (rule run_invariant_along[where I = "every_record ruled_out_if_stamped"
            and P = spares_ruled_out, OF _ every_record_empty that])
         (auto intro: every_record_step ruled_out_step)
    from every_recordD[OF this assms(1)] show ?thesis .
  qed
  from a b assms(2) show ?thesis
    by (auto simp: stamped_if_ruled_out_def ruled_out_if_stamped_def)
qed

theorem ruled_out_and_stamped_witness:
  "\<exists>memory hyp.
     files (run [demo_create, demo_propose, demo_rule_out ''2026-01-01T09:10:00.000Z''] demo_store) (getMemoryFilePath demo_store ''inc_1'')
       = Some (Document memory) \<and>
     hyp \<in> set (hypotheses memory) \<and>
     along spares_ruled_out
       [demo_create, demo_propose, demo_rule_out ''2026-01-01T09:10:00.000Z''] demo_store \<and>
     h_status hyp = H_ruled_out \<and> ruled_out_at hyp \<noteq> None"
proof -
  let ?ops = "[demo_create, demo_propose, demo_rule_out ''2026-01-01T09:10:00.000Z'']"
  obtain memory hyp where r: "files (run ?ops demo_store) (getMemoryFilePath demo_store ''inc_1'') = Some (Document memory)"
    and h: "hyp \<in> set (hypotheses memory)" and s: "h_status hyp = H_ruled_out"
    by (simp add: demo_defs op_defs)
  have a: "along spares_ruled_out ?ops demo_store"
    by (simp add: demo_defs op_defs spares_ruled_out_def lookup_hypothesis_def)
  from ruled_out_and_stamped [OF r [unfolded demo_store_def] h] s a r h show ?thesis
    by (auto simp: demo_store_def)
qed

text \<open>
  The claim as stated includes a confirmation of a ruled-out hypothesis. After one, the
  hypothesis is confirmed and still carries its \<open>ruled_out_at\<close>.
\<close>

theorem confirmed_hypothesis_with_ruled_out_at:
  "getHypotheses
     (run [demo_create, demo_propose, demo_rule_out ''2026-01-01T09:10:00.000Z'',
           demo_confirm ''2026-01-01T09:20:00.000Z''] demo_store) ''inc_1''
     = Inr [demo_ruled_out_then_confirmed] \<and>
   ruled_out_at demo_ruled_out_then_confirmed = Some ''2026-01-01T09:10:00.000Z'' \<and>
   h_status demo_ruled_out_then_confirmed = H_confirmed_root_cause \<and>
   h_status demo_ruled_out_then_confirmed \<noteq> H_ruled_out"
  by (simp add: demo_defs op_defs)

section \<open>What ruling out a hypothesis writes\<close>

text \<open>
  Claim C10. On an existing record that has a hypothesis of the given id,
  \<open>ruleOutHypothesis\<close> succeeds and saves the record it returns. In that record the first
  hypothesis of that id, at its position \<open>j\<close>, has status ruled_out and the clock reading as
  \<open>ruled_out_at\<close> and is otherwise as before, every other hypothesis is as before, and the
  audit sequence has one more entry, with the title of the hypothesis, the reason and the
  same clock reading. The id, name, metadata, summary, timeline and findings are as before.
\<close>

theorem ruleOutHypothesis_frame:
  assumes "loadMemory fs (ro_incident_id params) = Inr (Some memory)"
    and "find (\<lambda>h. h_id h = ro_hypothesis_id params) (hypotheses memory) = Some hyp"
  shows "\<exists>memory' fs' j.
           ruleOutHypothesis now params fs = Inr (memory', fs') \<and>
           fs' = saveMemory memory' fs \<and>
           j < length (hypotheses memory) \<and> hypotheses memory ! j = hyp \<and>
           (\<forall>i < j. h_id (hypotheses memory ! i) \<noteq> ro_hypothesis_id params) \<and>
           hypotheses memory' =
             (hypotheses memory)[j := hyp\<lparr> h_status := H_ruled_out, ruled_out_at := Some now \<rparr>] \<and>
           ruled_out memory' = ruled_out memory @
             [\<lparr> hypothesis = title hyp, reason = ro_reason params, r_ruled_out_at = now \<rparr>] \<and>
           incident_id memory' = incident_id memory \<and>
           incident_name memory' = incident_name memory \<and>
           metadata memory' = metadata memory \<and>
           tldr memory' = tldr memory \<and>
           timeline memory' = timeline memory \<and>
           findings memory' = findings memory"
proof -
  from find_update_first[OF assms(2),
      of "\<lambda>h. h\<lparr> h_status := H_ruled_out, ruled_out_at := Some now \<rparr>"]
  obtain j where j: "j < length (hypotheses memory)" "hypotheses memory ! j = hyp"
    "\<forall>i < j. h_id (hypotheses memory ! i) \<noteq> ro_hypothesis_id params"
    "update_first (\<lambda>h. h_id h = ro_hypothesis_id params)
       (\<lambda>h. h\<lparr> h_status := H_ruled_out, ruled_out_at := Some now \<rparr>) (hypotheses memory)
     = (hypotheses memory)[j := hyp\<lparr> h_status := H_ruled_out, ruled_out_at := Some now \<rparr>]"
    by blast
  with assms show ?thesis
    by (auto simp: ruleOutHypothesis_def Let_def intro!: exI[of _ j])
qed

theorem ruleOutHypothesis_frame_witness:
  "\<exists>memory memory' fs'.
     loadMemory (run [demo_create, demo_propose] demo_store) ''inc_1'' = Inr (Some memory) \<and>
     find (\<lambda>h. h_id h = ''hyp_1'') (hypotheses memory) = Some demo_hypothesis \<and>
     ruleOutHypothesis ''2026-01-01T09:10:00.000Z'' demo_rule_out_params
       (run [demo_create, demo_propose] demo_store) = Inr (memory', fs') \<and>
     hypotheses memory' =
       [demo_hypothesis\<lparr> h_status := H_ruled_out,
                          ruled_out_at := Some ''2026-01-01T09:10:00.000Z'' \<rparr>] \<and>
     metadata memory' = metadata memory \<and> timeline memory' = timeline memory \<and>
     tldr memory' = tldr memory"
proof -
  let ?fs = "run [demo_create, demo_propose] demo_store"
  obtain memory where
    l: "loadMemory ?fs (ro_incident_id demo_rule_out_params) = Inr (Some memory)"
    and f: "find (\<lambda>h. h_id h = ro_hypothesis_id demo_rule_out_params) (hypotheses memory)
              = Some demo_hypothesis"
    and hs: "hypotheses memory = [demo_hypothesis]"
    by (simp add: demo_defs op_defs)
  from ruleOutHypothesis_frame [OF l f, of "''2026-01-01T09:10:00.000Z''"]
  obtain memory' fs' j where
    "ruleOutHypothesis ''2026-01-01T09:10:00.000Z'' demo_rule_out_params ?fs = Inr (memory', fs')"
    "j < length (hypotheses memory)"
    "hypotheses memory' = (hypotheses memory)[j := demo_hypothesis\<lparr> h_status := H_ruled_out,
        ruled_out_at := Some ''2026-01-01T09:10:00.000Z'' \<rparr>]"
    "metadata memory' = metadata memory" "timeline memory' = timeline memory"
    "tldr memory' = tldr memory"
    by blast
  with l f hs show ?thesis
    by (auto simp: demo_rule_out_params_def)
qed

section \<open>Dispatch of a tool call\<close>

text \<open>
  Claim C9, as the code has it. A name of \<open>memoryToolNames\<close> is routed to the case of that
  name in \<open>executeMemoryTool\<close>. Every other name, whether or not the log-query collaborator
  provides a tool of that name, is handed to the collaborator with its input unchanged,
  and the answer of the collaborator is the result. \<open>executeTool\<close> itself never fails: an
  error of either side comes back as an error object with the message of the error. The
  unknown-tool error is what \<open>executeMemoryTool\<close> throws when it is called with a name that
  is not a memory tool, which \<open>executeTool\<close> never does.
\<close>

theorem executeTool_routing:
  "(toolName \<in> set memoryToolNames \<longrightarrow>
      (\<exists>c. executeMemoryTool call toolName toolInput = call c toolInput \<and>
           executeTool call callTool toolName toolInput =
             (case call c toolInput of Inr r \<Rightarrow> Result r | Inl e \<Rightarrow> ErrorObject (message e)))) \<and>
   (toolName \<notin> set memoryToolNames \<longrightarrow>
      executeMemoryTool call toolName toolInput = Inl (UnknownMemoryTool toolName) \<and>
      executeTool call callTool toolName toolInput =
        (case callTool toolName toolInput of Inr r \<Rightarrow> Result r | Inl e \<Rightarrow> ErrorObject (message e)))"
  by (auto simp: executeTool_def executeMemoryTool_def executeMcpTool_def memoryToolNames_def)

theorem executeTool_routing_witness:
  "''get_timeline'' \<in> set memoryToolNames \<and>
   executeTool demo_call strict_collaborator ''get_timeline'' ''{}'' = Result ''memory'' \<and>
   ''list_log_entries'' \<notin> set memoryToolNames \<and>
   executeTool demo_call strict_collaborator ''list_log_entries'' ''{}'' = Result ''entries'' \<and>
   executeMemoryTool demo_call ''list_log_entries'' ''{}''
     = Inl (UnknownMemoryTool ''list_log_entries'')"
  using executeTool_routing [of "''get_timeline''" demo_call "''{}''" strict_collaborator]
    executeTool_routing [of "''list_log_entries''" demo_call "''{}''" strict_collaborator]
  by (auto simp: memoryToolNames_def demo_call_def strict_collaborator_def)

text \<open>
  The claim as stated asks that a name which is neither a memory tool nor a tool of the
  collaborator fails with the unknown-tool error. Such a name goes to the collaborator:
  with a collaborator that answers every name the call succeeds, and with one that rejects
  the name the result is an error object with the collaborator's own message.
\<close>

theorem unknown_tool_goes_to_collaborator:
  "''no_such_tool'' \<notin> set memoryToolNames \<and>
   executeTool demo_call lenient_collaborator ''no_such_tool'' ''{}''
     = Result ''answer to no_such_tool'' \<and>
   executeTool demo_call strict_collaborator ''no_such_tool'' ''{}''
     = ErrorObject ''Tool no_such_tool not found'' \<and>
   executeTool demo_call strict_collaborator ''no_such_tool'' ''{}''
     \<noteq> ErrorObject (message (UnknownMemoryTool ''no_such_tool''))"
  by (simp add: executeTool_def executeMcpTool_def memoryToolNames_def
      lenient_collaborator_def strict_collaborator_def)

section \<open>Hypotheses keep their place\<close>

text \<open>
  Every record of a store that the operations built from the store without files lies in
  the file that its own id names, so an operation that loads a record saves it into the
  file it was loaded from, and an operation on one file does not write another. No
  operation removes or reorders hypotheses, or writes the id, title, proposer or proposal
  time of an existing one.
\<close>

lemma getMemoryFilePath_apply_op:
  "apply_op op fs = Inr (m', fs') \<Longrightarrow> getMemoryFilePath fs' = getMemoryFilePath fs"
  by (drule apply_op_store) simp

lemma getMemoryFilePath_exec_op: "getMemoryFilePath (exec_op op fs) = getMemoryFilePath fs"
  using exec_op_cases[of op fs] getMemoryFilePath_apply_op by fastforce

lemma getMemoryFilePath_run: "getMemoryFilePath (run ops fs) = getMemoryFilePath fs"
  by (induction ops arbitrary: fs) (simp_all add: getMemoryFilePath_exec_op)

lemma creates_same_names:
  "getMemoryFilePath fs' = getMemoryFilePath fs \<Longrightarrow> creates fs' q op = creates fs q op"
  by (cases op) simp_all

lemma addresses_same_names:
  "getMemoryFilePath fs' = getMemoryFilePath fs \<Longrightarrow>
     addresses fs' q hid op = addresses fs q hid op"
  by (cases op) simp_all

lemma stored_under_own_id_step:
  assumes "stored_under_own_id fs" and "apply_op op fs = Inr (m', fs')"
  shows "stored_under_own_id fs'"
  using apply_op_store[OF assms(2)] assms(1)
  by (auto simp: stored_under_own_id_def)

lemma stored_under_own_id_exec:
  "stored_under_own_id fs \<Longrightarrow> stored_under_own_id (exec_op op fs)"
  using exec_op_cases[of op fs] stored_under_own_id_step by auto

lemma stored_under_own_id_run: "stored_under_own_id (run ops (empty_store c j l))"
proof (rule run_invariant[where I = stored_under_own_id])
  show "stored_under_own_id (empty_store c j l)" by (simp add: stored_under_own_id_def)
qed (rule stored_under_own_id_step)

lemma run_append: "run (xs @ ys) fs = run ys (run xs fs)"
  by (induction xs arbitrary: fs) auto

lemma nth_update_first:
  "i < length xs \<Longrightarrow>
     update_first p f xs ! i = xs ! i \<or> (p (xs ! i) \<and> update_first p f xs ! i = f (xs ! i))"
proof (induction xs arbitrary: i)
  case Nil
  then show ?case by simp
next
  case (Cons x xs)
  then show ?case by (cases i) auto
qed

lemma apply_op_keeps:
  assumes wk: "stored_under_own_id fs" and k: "files fs q = Some (Document m)"
    and i: "i < length (hypotheses m)" and nc: "\<not> creates fs q op"
    and ap: "apply_op op fs = Inr (r, fs')"
  shows "\<exists>m'. files fs' q = Some (Document m') \<and>
           length (hypotheses m) \<le> length (hypotheses m') \<and>
           same_hypothesis (hypotheses m ! i) (hypotheses m' ! i) \<and>
           (h_status (hypotheses m ! i) \<noteq> H_investigating \<longrightarrow>
              h_status (hypotheses m' ! i) \<noteq> H_investigating) \<and>
           (\<not> addresses fs q (h_id (hypotheses m ! i)) op \<longrightarrow>
              h_status (hypotheses m' ! i) = h_status (hypotheses m ! i))"
  using ap
proof (cases rule: apply_op_cases)
  case (create g now p)
  with nc k show ?thesis by (auto simp: same_hypothesis_def)
next
  case (event now p m0)
  with wk have "getMemoryFilePath fs (incident_id m0) = getMemoryFilePath fs (e_incident_id p)"
    by (auto simp: stored_under_own_id_def)
  with event k show ?thesis
    by (cases "getMemoryFilePath fs (e_incident_id p) = q") (auto simp: same_hypothesis_def)
next
  case (propose now p m0)
  with wk have "getMemoryFilePath fs (incident_id m0) = getMemoryFilePath fs (ph_incident_id p)"
    by (auto simp: stored_under_own_id_def)
  with propose k i show ?thesis
    by (cases "getMemoryFilePath fs (ph_incident_id p) = q")
       (auto simp: same_hypothesis_def nth_append)
next
  case (update p m0 hyp f)
  with wk have id: "getMemoryFilePath fs (incident_id m0) = getMemoryFilePath fs (uh_incident_id p)"
    by (auto simp: stored_under_own_id_def)
  show ?thesis
  proof (cases "getMemoryFilePath fs (uh_incident_id p) = q")
    case True
    with update k have "m0 = m" by simp
    with update id True i
      nth_update_first[OF i, of "\<lambda>h. h_id h = uh_hypothesis_id p" f]
    show ?thesis by (auto simp: same_hypothesis_def length_update_first)
  next
    case False
    with update k id show ?thesis by (auto simp: same_hypothesis_def)
  qed
next
  case (rule_out now p m0 hyp)
  with wk have id: "getMemoryFilePath fs (incident_id m0) = getMemoryFilePath fs (ro_incident_id p)"
    by (auto simp: stored_under_own_id_def)
  show ?thesis
  proof (cases "getMemoryFilePath fs (ro_incident_id p) = q")
    case True
    with rule_out k have "m0 = m" by simp
    with rule_out id True i
      nth_update_first[OF i, of "\<lambda>h. h_id h = ro_hypothesis_id p"
        "\<lambda>h. h\<lparr> h_status := H_ruled_out, ruled_out_at := Some now \<rparr>"]
    show ?thesis by (auto simp: same_hypothesis_def length_update_first)
  next
    case False
    with rule_out k id show ?thesis by (auto simp: same_hypothesis_def)
  qed
next
  case (confirm now1 now2 p m0 hyp)
  with wk have id: "getMemoryFilePath fs (incident_id m0) = getMemoryFilePath fs (cr_incident_id p)"
    by (auto simp: stored_under_own_id_def)
  show ?thesis
  proof (cases "getMemoryFilePath fs (cr_incident_id p) = q")
    case True
    with confirm k have "m0 = m" by simp
    with confirm id True i
      nth_update_first[OF i, of "\<lambda>h. h_id h = cr_hypothesis_id p"
        "\<lambda>h. h\<lparr> h_status := H_confirmed_root_cause \<rparr>"]
    show ?thesis by (auto simp: same_hypothesis_def length_update_first)
  next
    case False
    with confirm k id show ?thesis by (auto simp: same_hypothesis_def)
  qed
next
  case (finding p m0)
  with wk have "getMemoryFilePath fs (incident_id m0) = getMemoryFilePath fs (af_incident_id p)"
    by (auto simp: stored_under_own_id_def)
  with finding k show ?thesis
    by (cases "getMemoryFilePath fs (af_incident_id p) = q") (auto simp: same_hypothesis_def)
next
  case (tldr now p m0)
  with wk have "getMemoryFilePath fs (incident_id m0) = getMemoryFilePath fs (ut_incident_id p)"
    by (auto simp: stored_under_own_id_def)
  with tldr k show ?thesis
    by (cases "getMemoryFilePath fs (ut_incident_id p) = q") (auto simp: same_hypothesis_def)
qed

lemma exec_op_keeps:
  assumes wk: "stored_under_own_id fs" and k: "files fs q = Some (Document m)"
    and i: "i < length (hypotheses m)" and nc: "\<not> creates fs q op"
  shows "\<exists>m'. files (exec_op op fs) q = Some (Document m') \<and>
           length (hypotheses m) \<le> length (hypotheses m') \<and>
           same_hypothesis (hypotheses m ! i) (hypotheses m' ! i) \<and>
           (h_status (hypotheses m ! i) \<noteq> H_investigating \<longrightarrow>
              h_status (hypotheses m' ! i) \<noteq> H_investigating) \<and>
           (\<not> addresses fs q (h_id (hypotheses m ! i)) op \<longrightarrow>
              h_status (hypotheses m' ! i) = h_status (hypotheses m ! i))"
proof -
  from exec_op_cases[of op fs] show ?thesis
  proof
    assume "exec_op op fs = fs"
    with k show ?thesis by (auto simp: same_hypothesis_def)
  next
    assume "\<exists>m' fs'. apply_op op fs = Inr (m', fs') \<and> exec_op op fs = fs'"
    then obtain r fs' where "apply_op op fs = Inr (r, fs')" "exec_op op fs = fs'" by blast
    with apply_op_keeps[OF wk k i nc this(1)] show ?thesis by simp
  qed
qed

lemma run_keeps:
  assumes "stored_under_own_id fs" and "files fs q = Some (Document m)"
    and "i < length (hypotheses m)" and "\<forall>op \<in> set ops. \<not> creates fs q op"
  shows "\<exists>m'. files (run ops fs) q = Some (Document m') \<and>
           length (hypotheses m) \<le> length (hypotheses m') \<and>
           same_hypothesis (hypotheses m ! i) (hypotheses m' ! i) \<and>
           (h_status (hypotheses m ! i) \<noteq> H_investigating \<longrightarrow>
              h_status (hypotheses m' ! i) \<noteq> H_investigating) \<and>
           ((\<forall>op \<in> set ops. \<not> addresses fs q (h_id (hypotheses m ! i)) op) \<longrightarrow>
              h_status (hypotheses m' ! i) = h_status (hypotheses m ! i))"
  using assms
proof (induction ops arbitrary: fs m)
  case Nil
  then show ?case by (simp add: same_hypothesis_def)
next
  case (Cons op ops)
  let ?fs1 = "exec_op op fs"
  have names: "getMemoryFilePath ?fs1 = getMemoryFilePath fs"
    by (rule getMemoryFilePath_exec_op)
  from Cons.prems have nc: "\<not> creates fs q op" by simp
  from Cons.prems have rest: "\<forall>op \<in> set ops. \<not> creates ?fs1 q op"
    by (simp add: creates_same_names[OF names])
  from exec_op_keeps[OF Cons.prems(1,2,3) nc] obtain m1 where m1:
    "files ?fs1 q = Some (Document m1)"
    "length (hypotheses m) \<le> length (hypotheses m1)"
    "same_hypothesis (hypotheses m ! i) (hypotheses m1 ! i)"
    "h_status (hypotheses m ! i) \<noteq> H_investigating \<longrightarrow>
       h_status (hypotheses m1 ! i) \<noteq> H_investigating"
    "\<not> addresses fs q (h_id (hypotheses m ! i)) op \<longrightarrow>
       h_status (hypotheses m1 ! i) = h_status (hypotheses m ! i)"
    by blast
  from m1(2) Cons.prems(3) have i1: "i < length (hypotheses m1)" by simp
  from Cons.IH[OF stored_under_own_id_exec[OF Cons.prems(1)] m1(1) i1 rest]
  obtain m' where m': "files (run ops ?fs1) q = Some (Document m')"
    "length (hypotheses m1) \<le> length (hypotheses m')"
    "same_hypothesis (hypotheses m1 ! i) (hypotheses m' ! i)"
    "h_status (hypotheses m1 ! i) \<noteq> H_investigating \<longrightarrow>
       h_status (hypotheses m' ! i) \<noteq> H_investigating"
    "(\<forall>op \<in> set ops. \<not> addresses ?fs1 q (h_id (hypotheses m1 ! i)) op) \<longrightarrow>
       h_status (hypotheses m' ! i) = h_status (hypotheses m1 ! i)"
    by blast
  from m1(3) have "h_id (hypotheses m1 ! i) = h_id (hypotheses m ! i)"
    by (simp add: same_hypothesis_def)
  with m1 m' show ?case
    by (intro exI[of _ m']) (auto simp: same_hypothesis_def addresses_same_names[OF names])
qed

lemma apply_op_record_stays:
  assumes "\<exists>m. files fs q = Some (Document m)" and "apply_op op fs = Inr (m', fs')"
  shows "\<exists>m. files fs' q = Some (Document m)"
  using apply_op_store[OF assms(2)] assms(1)
  by (cases "getMemoryFilePath fs (incident_id m') = q") auto

lemma run_record_stays:
  assumes "files fs q = Some (Document m)"
  shows "\<exists>m'. files (run ops fs) q = Some (Document m')"
proof (rule run_invariant[where I = "\<lambda>fs. \<exists>m. files fs q = Some (Document m)"])
  show "\<exists>m. files fs q = Some (Document m)" using assms by blast
qed (rule apply_op_record_stays)

section \<open>Decided hypotheses\<close>

text \<open>
  Claim C5, as the code has it. Take a hypothesis of a reachable record whose status is
  confirmed_root_cause or ruled_out, and any later sequence of operations none of which
  creates an incident whose id names the file of that record. Afterwards the hypothesis is
  at the same position with the same id and its status is again one of these two: it never
  returns to investigating. Its status is unchanged if none of the later operations is a
  \<open>ruleOutHypothesis\<close> or \<open>confirmRootCause\<close> with this hypothesis id and an incident id that
  names the file of the record, under whatever spelling. Those two operations check no
  status and overwrite it.
\<close>

theorem decided_hypothesis_stays_decided:
  assumes "files (run ops (empty_store c j l)) q = Some (Document memory)"
    and "i < length (hypotheses memory)"
    and "h_status (hypotheses memory ! i) \<noteq> H_investigating"
    and "\<forall>op \<in> set later. \<not> creates (empty_store c j l) q op"
  shows "\<exists>memory'.
           files (run (ops @ later) (empty_store c j l)) q = Some (Document memory') \<and>
           i < length (hypotheses memory') \<and>
           h_id (hypotheses memory' ! i) = h_id (hypotheses memory ! i) \<and>
           h_status (hypotheses memory' ! i) \<noteq> H_investigating \<and>
           ((\<forall>op \<in> set later.
               \<not> addresses (empty_store c j l) q (h_id (hypotheses memory ! i)) op) \<longrightarrow>
              h_status (hypotheses memory' ! i) = h_status (hypotheses memory ! i))"
proof -
  let ?fs = "run ops (empty_store c j l)"
  have names: "getMemoryFilePath ?fs = getMemoryFilePath (empty_store c j l)"
    by (rule getMemoryFilePath_run)
  from assms(4) have nc: "\<forall>op \<in> set later. \<not> creates ?fs q op"
    by (simp add: creates_same_names[OF names])
  from run_keeps[OF stored_under_own_id_run assms(1,2) nc] obtain m' where
    "files (run later ?fs) q = Some (Document m')"
    "length (hypotheses memory) \<le> length (hypotheses m')"
    "same_hypothesis (hypotheses memory ! i) (hypotheses m' ! i)"
    "h_status (hypotheses memory ! i) \<noteq> H_investigating \<longrightarrow>
       h_status (hypotheses m' ! i) \<noteq> H_investigating"
    "(\<forall>op \<in> set later. \<not> addresses ?fs q (h_id (hypotheses memory ! i)) op) \<longrightarrow>
       h_status (hypotheses m' ! i) = h_status (hypotheses memory ! i)"
    by blast
  with assms(2,3) show ?thesis
    by (intro exI[of _ m'])
       (auto simp: run_append same_hypothesis_def addresses_same_names[OF names])
qed

theorem decided_hypothesis_stays_decided_witness:
  "\<exists>memory memory'.
     files (run [demo_create, demo_propose, demo_rule_out ''2026-01-01T09:10:00.000Z''] demo_store)
       (getMemoryFilePath demo_store ''inc_1'') = Some (Document memory) \<and>
     h_status (hypotheses memory ! 0) = H_ruled_out \<and>
     files (run ([demo_create, demo_propose, demo_rule_out ''2026-01-01T09:10:00.000Z'']
                 @ [UpdateHypothesis demo_update, demo_propose]) demo_store)
       (getMemoryFilePath demo_store ''inc_1'') = Some (Document memory') \<and>
     h_id (hypotheses memory' ! 0) = ''hyp_1'' \<and>
     h_status (hypotheses memory' ! 0) = H_ruled_out"
proof -
  let ?ops = "[demo_create, demo_propose, demo_rule_out ''2026-01-01T09:10:00.000Z'']"
  let ?later = "[UpdateHypothesis demo_update, demo_propose]"
  let ?q = "getMemoryFilePath demo_store ''inc_1''"
  obtain memory where r: "files (run ?ops demo_store) ?q = Some (Document memory)"
    and i: "0 < length (hypotheses memory)"
    and s: "h_status (hypotheses memory ! 0) = H_ruled_out"
    and h: "h_id (hypotheses memory ! 0) = ''hyp_1''"
    by (simp add: demo_defs op_defs)
  from s have d: "h_status (hypotheses memory ! 0) \<noteq> H_investigating" by simp
  have c: "\<forall>op \<in> set ?later. \<not> creates demo_store ?q op"
    by (simp add: demo_defs)
  have a: "\<forall>op \<in> set ?later. \<not> addresses demo_store ?q (h_id (hypotheses memory ! 0)) op"
    by (simp add: demo_defs)
  from decided_hypothesis_stays_decided
    [OF r [unfolded demo_store_def] i d c [unfolded demo_store_def]]
    a r s h
  show ?thesis by (auto simp: demo_store_def)
qed

text \<open>
  The claim as stated says that no later operation changes a decided status. A confirmation
  turns the ruled-out hypothesis into the confirmed root cause, and a rule-out turns the
  confirmed hypothesis into a ruled-out one.
\<close>

theorem decided_status_is_overwritten:
  "getHypotheses
     (run [demo_create, demo_propose, demo_rule_out ''2026-01-01T09:10:00.000Z'']
        demo_store) ''inc_1''
     = Inr [demo_hypothesis\<lparr> h_status := H_ruled_out,
                               ruled_out_at := Some ''2026-01-01T09:10:00.000Z'' \<rparr>] \<and>
   getHypotheses
     (run [demo_create, demo_propose, demo_rule_out ''2026-01-01T09:10:00.000Z'',
           demo_confirm ''2026-01-01T09:20:00.000Z''] demo_store) ''inc_1''
     = Inr [demo_hypothesis\<lparr> h_status := H_confirmed_root_cause,
                               ruled_out_at := Some ''2026-01-01T09:10:00.000Z'' \<rparr>] \<and>
   getHypotheses
     (run [demo_create, demo_propose, demo_confirm ''2026-01-01T09:10:00.000Z'']
        demo_store) ''inc_1''
     = Inr [demo_hypothesis\<lparr> h_status := H_confirmed_root_cause \<rparr>] \<and>
   getHypotheses
     (run [demo_create, demo_propose, demo_confirm ''2026-01-01T09:10:00.000Z'',
           demo_rule_out ''2026-01-01T09:20:00.000Z''] demo_store) ''inc_1''
     = Inr [demo_hypothesis\<lparr> h_status := H_ruled_out,
                               ruled_out_at := Some ''2026-01-01T09:20:00.000Z'' \<rparr>]"
  by (simp add: demo_defs op_defs)

text \<open>
  An operation reaches the record through every incident id that names its file: a
  confirmation under the id \<open>./inc_1\<close> overwrites the status of the ruled-out hypothesis of
  \<open>inc_1\<close>, and it is one of the operations that the premise on the later operations of
  the theorem rules out.
\<close>

lemma confirmation_under_another_spelling:
  "getHypotheses
     (run [demo_create, demo_propose, demo_rule_out ''2026-01-01T09:10:00.000Z'',
           ConfirmRootCause ''2026-01-01T09:20:00.000Z'' ''2026-01-01T09:20:00.000Z''
             \<lparr> cr_incident_id = ''./inc_1'', cr_hypothesis_id = ''hyp_1'' \<rparr>]
        demo_store) ''inc_1''
     = Inr [demo_hypothesis\<lparr> h_status := H_confirmed_root_cause,
                               ruled_out_at := Some ''2026-01-01T09:10:00.000Z'' \<rparr>] \<and>
   addresses demo_store (getMemoryFilePath demo_store ''inc_1'') ''hyp_1''
     (ConfirmRootCause ''2026-01-01T09:20:00.000Z'' ''2026-01-01T09:20:00.000Z''
        \<lparr> cr_incident_id = ''./inc_1'', cr_hypothesis_id = ''hyp_1'' \<rparr>)"
  by (simp add: demo_defs op_defs demo_same_file)

section \<open>Hypothesis ids\<close>

lemma digit_char_inj: "a < 10 \<Longrightarrow> b < 10 \<Longrightarrow> digit_char a = digit_char b \<Longrightarrow> a = b"
  by (simp split: if_splits) arith

lemma string_of_nat_nonempty: "string_of_nat n \<noteq> []"
  by (subst string_of_nat.simps) simp

lemma string_of_nat_inj: "string_of_nat a = string_of_nat b \<Longrightarrow> a = b"
proof (induction a arbitrary: b rule: less_induct)
  case (less a)
  show ?case
  proof (cases "a < 10")
    case a: True
    show ?thesis
    proof (cases "b < 10")
      case True
      with a less.prems show ?thesis
        by (simp add: string_of_nat.simps[of a] string_of_nat.simps[of b] digit_char_inj
            del: digit_char.simps)
    next
      case False
      with a less.prems string_of_nat_nonempty[of "b div 10"] show ?thesis
        by (simp add: string_of_nat.simps[of a] string_of_nat.simps[of b]
            del: digit_char.simps)
    qed
  next
    case a: False
    show ?thesis
    proof (cases "b < 10")
      case True
      with a less.prems string_of_nat_nonempty[of "a div 10"] show ?thesis
        by (simp add: string_of_nat.simps[of a] string_of_nat.simps[of b]
            del: digit_char.simps)
    next
      case False
      with a less.prems have eq: "string_of_nat (a div 10) = string_of_nat (b div 10)"
        and d: "digit_char (a mod 10) = digit_char (b mod 10)"
        by (simp_all add: string_of_nat.simps[of a] string_of_nat.simps[of b]
            del: digit_char.simps)
      from a have "a div 10 < a" by simp
      from less.IH[OF this eq] have q: "a div 10 = b div 10" .
      from d have r: "a mod 10 = b mod 10" by (intro digit_char_inj) simp_all
      from q r show ?thesis by (metis div_mult_mod_eq)
    qed
  qed
qed

lemma numbered_ids_distinct:
  assumes "numbered_ids m"
  shows "distinct (map h_id (hypotheses m))"
proof -
  have "inj_on (\<lambda>i. ''hyp_'' @ string_of_nat (Suc i)) A" for A
    by (auto simp: inj_on_def dest: string_of_nat_inj)
  with assms show ?thesis
    by (simp add: numbered_ids_def distinct_map)
qed

lemma numbered_step:
  assumes "every_record numbered_ids fs" and "apply_op op fs = Inr (m', fs')"
  shows "numbered_ids m'"
  using assms(2)
proof (cases rule: apply_op_cases)
  case (update p m hyp f)
  with every_recordD[OF assms(1) update(2)] show ?thesis
    by (simp add: numbered_ids_def length_update_first map_update_first)
next
  case (rule_out now p m hyp)
  with every_recordD[OF assms(1) rule_out(2)] show ?thesis
    by (simp add: numbered_ids_def length_update_first map_update_first)
next
  case (confirm now1 now2 p m hyp)
  with every_recordD[OF assms(1) confirm(2)] show ?thesis
    by (simp add: numbered_ids_def length_update_first map_update_first)
next
  case (propose now p m)
  with every_recordD[OF assms(1) propose(2)] show ?thesis
    by (simp add: numbered_ids_def generateHypothesisId_def)
qed (auto simp: numbered_ids_def dest!: every_recordD[OF assms(1)])

text \<open>
  Claim C6. On an existing record \<open>proposeHypothesis\<close> returns the record with exactly one
  hypothesis appended, of status investigating, whose id is \<open>hyp_\<close> followed by its 1-based
  position in the new sequence, and saves that record, so that loading the id of the
  record yields it. In every record reachable from the store without files the ids of the
  hypotheses are pairwise distinct, the hypothesis at position \<open>i\<close> (from 0) having the id
  \<open>hyp_\<close> and \<open>i + 1\<close>, and the record lies in the file that its own id names. On a
  reachable store the record that \<open>proposeHypothesis\<close> returns is what loading the given
  incident id yields afterwards, it has one hypothesis more, and its ids are pairwise
  distinct. After any later operations none of which creates an incident whose id names
  the file of the record, every hypothesis is still at its position with the same id,
  title, proposer and proposal time, so no id has passed to another hypothesis.
\<close>

theorem hypothesis_ids:
  "(loadMemory fs (ph_incident_id params) = Inr (Some memory) \<longrightarrow>
      (\<exists>hyp fs'.
         proposeHypothesis now params fs
           = Inr (memory\<lparr> hypotheses := hypotheses memory @ [hyp] \<rparr>, fs') \<and>
         h_status hyp = H_investigating \<and>
         h_id hyp = ''hyp_'' @ string_of_nat (length (hypotheses memory @ [hyp])) \<and>
         fs' = saveMemory (memory\<lparr> hypotheses := hypotheses memory @ [hyp] \<rparr>) fs \<and>
         loadMemory fs' (incident_id memory)
           = Inr (Some (memory\<lparr> hypotheses := hypotheses memory @ [hyp] \<rparr>)))) \<and>
   (files (run ops (empty_store c j l)) q = Some (Document m) \<longrightarrow>
      getMemoryFilePath (empty_store c j l) (incident_id m) = q \<and>
      distinct (map h_id (hypotheses m)) \<and>
      (\<forall>i < length (hypotheses m). h_id (hypotheses m ! i) = ''hyp_'' @ string_of_nat (i + 1)) \<and>
      ((\<forall>op \<in> set later. \<not> creates (empty_store c j l) q op) \<longrightarrow>
         (\<exists>m'. files (run (ops @ later) (empty_store c j l)) q = Some (Document m') \<and>
               length (hypotheses m) \<le> length (hypotheses m') \<and>
               (\<forall>i < length (hypotheses m).
                  same_hypothesis (hypotheses m ! i) (hypotheses m' ! i))))) \<and>
   (proposeHypothesis now' params' (run ops (empty_store c j l)) = Inr (memory', fs'') \<longrightarrow>
      loadMemory fs'' (ph_incident_id params') = Inr (Some memory') \<and>
      loadMemory (run ops (empty_store c j l)) (ph_incident_id params')
        = Inr (Some (memory'\<lparr> hypotheses := butlast (hypotheses memory') \<rparr>)) \<and>
      hypotheses memory' \<noteq> [] \<and>
      distinct (map h_id (hypotheses memory')))"
proof (intro conjI impI)
  assume "loadMemory fs (ph_incident_id params) = Inr (Some memory)"
  then show "\<exists>hyp fs'.
         proposeHypothesis now params fs
           = Inr (memory\<lparr> hypotheses := hypotheses memory @ [hyp] \<rparr>, fs') \<and>
         h_status hyp = H_investigating \<and>
         h_id hyp = ''hyp_'' @ string_of_nat (length (hypotheses memory @ [hyp])) \<and>
         fs' = saveMemory (memory\<lparr> hypotheses := hypotheses memory @ [hyp] \<rparr>) fs \<and>
         loadMemory fs' (incident_id memory)
           = Inr (Some (memory\<lparr> hypotheses := hypotheses memory @ [hyp] \<rparr>))"
    by (intro exI[of _ "\<lparr> h_id = generateHypothesisId memory, title = ph_title params,
          proposed_at = now, proposed_by = ph_proposed_by params, h_status = H_investigating,
          confidence = ph_confidence params, supporting_evidence = ph_initial_evidence params,
          counter_evidence = [], ruled_out_at = None \<rparr>"])
       (simp add: proposeHypothesis_def generateHypothesisId_def Let_def loadMemory_def)
next
  let ?fs = "run ops (empty_store c j l)"
  have names: "getMemoryFilePath ?fs = getMemoryFilePath (empty_store c j l)"
    by (rule getMemoryFilePath_run)
  have num: "every_record numbered_ids (run xs (empty_store c j l))" for xs
    by (rule run_invariant[where I = "every_record numbered_ids"])
       (auto intro: every_record_step numbered_step every_record_empty)
  {
    assume r: "files ?fs q = Some (Document m)"
    from stored_under_own_id_run[of ops c j l] r names
    show "getMemoryFilePath (empty_store c j l) (incident_id m) = q"
      by (auto simp: stored_under_own_id_def)
    from every_recordD[OF num r] have n: "numbered_ids m" .
    then show "distinct (map h_id (hypotheses m))" by (rule numbered_ids_distinct)
    show "\<forall>i < length (hypotheses m). h_id (hypotheses m ! i) = ''hyp_'' @ string_of_nat (i + 1)"
    proof (intro allI impI)
      fix i assume i: "i < length (hypotheses m)"
      then have "h_id (hypotheses m ! i) = map h_id (hypotheses m) ! i" by simp
      also from n i have "\<dots> = ''hyp_'' @ string_of_nat (i + 1)"
        by (simp add: numbered_ids_def)
      finally show "h_id (hypotheses m ! i) = ''hyp_'' @ string_of_nat (i + 1)" .
    qed
    assume l: "\<forall>op \<in> set later. \<not> creates (empty_store c j l) q op"
    then have l': "\<forall>op \<in> set later. \<not> creates ?fs q op"
      by (simp add: creates_same_names[OF names])
    show "\<exists>m'. files (run (ops @ later) (empty_store c j l)) q = Some (Document m') \<and>
                 length (hypotheses m) \<le> length (hypotheses m') \<and>
                 (\<forall>i < length (hypotheses m).
                    same_hypothesis (hypotheses m ! i) (hypotheses m' ! i))"
    proof (cases "hypotheses m = []")
      case True
      from r run_record_stays[of ?fs q m later]
      have "\<exists>m'. files (run later ?fs) q = Some (Document m')" by blast
      with True show ?thesis by (auto simp: run_append)
    next
      case False
      then have "0 < length (hypotheses m)" by simp
      from run_keeps[OF stored_under_own_id_run r this l'] obtain m' where
        m': "files (run later ?fs) q = Some (Document m')"
        "length (hypotheses m) \<le> length (hypotheses m')" by blast
      have "same_hypothesis (hypotheses m ! i) (hypotheses m' ! i)"
        if "i < length (hypotheses m)" for i
        using run_keeps[OF stored_under_own_id_run r that l'] m'(1) by auto
      with m' show ?thesis by (auto simp: run_append)
    qed
  }
  assume p: "proposeHypothesis now' params' ?fs = Inr (memory', fs'')"
  then have ap: "apply_op (ProposeHypothesis now' params') ?fs = Inr (memory', fs'')" by simp
  from p obtain m0 where
    m0: "files ?fs (getMemoryFilePath ?fs (ph_incident_id params')) = Some (Document m0)"
    and new: "memory' = m0\<lparr> hypotheses := hypotheses m0 @
        [\<lparr> h_id = generateHypothesisId m0, title = ph_title params', proposed_at = now',
           proposed_by = ph_proposed_by params', h_status = H_investigating,
           confidence = ph_confidence params', supporting_evidence = ph_initial_evidence params',
           counter_evidence = [], ruled_out_at = None \<rparr>] \<rparr>"
    and st: "fs'' = saveMemory memory' ?fs"
    by (auto simp: proposeHypothesis_def Let_def loadMemory_def
        split: option.splits content.splits)
  from stored_under_own_id_run[of ops c j l] m0
  have own: "getMemoryFilePath ?fs (incident_id m0) = getMemoryFilePath ?fs (ph_incident_id params')"
    by (auto simp: stored_under_own_id_def)
  from new st own show "loadMemory fs'' (ph_incident_id params') = Inr (Some memory')"
    by (simp add: loadMemory_def)
  from new m0 show "loadMemory ?fs (ph_incident_id params')
        = Inr (Some (memory'\<lparr> hypotheses := butlast (hypotheses memory') \<rparr>))"
    by (simp add: loadMemory_def)
  from new show "hypotheses memory' \<noteq> []" by simp
  from numbered_step[OF num ap] show "distinct (map h_id (hypotheses memory'))"
    by (rule numbered_ids_distinct)
qed

theorem hypothesis_ids_witness:
  "\<exists>memory hyp fs' m m' memory2 fs2.
     loadMemory (run [demo_create] demo_store) ''inc_1'' = Inr (Some memory) \<and>
     proposeHypothesis ''2026-01-01T09:05:00.000Z'' demo_propose_params (run [demo_create] demo_store)
       = Inr (memory\<lparr> hypotheses := hypotheses memory @ [hyp] \<rparr>, fs') \<and>
     h_status hyp = H_investigating \<and> h_id hyp = ''hyp_1'' \<and>
     loadMemory fs' ''inc_1'' = Inr (Some (memory\<lparr> hypotheses := hypotheses memory @ [hyp] \<rparr>)) \<and>
     files (run [demo_create, demo_propose, demo_propose] demo_store)
       (getMemoryFilePath demo_store ''inc_1'') = Some (Document m) \<and>
     map h_id (hypotheses m) = [''hyp_1'', ''hyp_2''] \<and>
     distinct (map h_id (hypotheses m)) \<and>
     files (run ([demo_create, demo_propose, demo_propose]
                 @ [demo_rule_out ''2026-01-01T09:10:00.000Z'', demo_propose]) demo_store)
       (getMemoryFilePath demo_store ''inc_1'') = Some (Document m') \<and>
     same_hypothesis (hypotheses m ! 0) (hypotheses m' ! 0) \<and>
     same_hypothesis (hypotheses m ! 1) (hypotheses m' ! 1) \<and>
     proposeHypothesis ''2026-01-01T09:06:00.000Z'' demo_propose_params
       (run [demo_create, demo_propose, demo_propose] demo_store) = Inr (memory2, fs2) \<and>
     loadMemory fs2 ''inc_1'' = Inr (Some memory2) \<and>
     map h_id (hypotheses memory2) = [''hyp_1'', ''hyp_2'', ''hyp_3''] \<and>
     distinct (map h_id (hypotheses memory2))"
proof -
  let ?fs = "run [demo_create] demo_store"
  let ?ops = "[demo_create, demo_propose, demo_propose]"
  let ?later = "[demo_rule_out ''2026-01-01T09:10:00.000Z'', demo_propose]"
  let ?q = "getMemoryFilePath demo_store ''inc_1''"
  obtain memory where l: "loadMemory ?fs (ph_incident_id demo_propose_params) = Inr (Some memory)"
    and e: "hypotheses memory = []" and own: "incident_id memory = ''inc_1''"
    by (simp add: demo_defs op_defs)
  obtain m where r: "files (run ?ops demo_store) ?q = Some (Document m)"
    and ids: "map h_id (hypotheses m) = [''hyp_1'', ''hyp_2'']"
    by (simp add: demo_defs op_defs)
  obtain memory2 fs2 where p2: "proposeHypothesis ''2026-01-01T09:06:00.000Z'' demo_propose_params
       (run ?ops demo_store) = Inr (memory2, fs2)"
    and ids2: "map h_id (hypotheses memory2) = [''hyp_1'', ''hyp_2'', ''hyp_3'']"
    by (simp add: demo_defs op_defs)
  have c: "\<forall>op \<in> set ?later. \<not> creates demo_store ?q op"
    by (simp add: demo_defs)
  from ids have len: "length (hypotheses m) = 2"
    by (metis length_map length_Cons list.size(3) numeral_2_eq_2)
  note t = hypothesis_ids [of ?fs demo_propose_params memory "''2026-01-01T09:05:00.000Z''"
      ?ops "''/srv/first-responder''" posix_join code_unit_compare ?q m ?later
      "''2026-01-01T09:06:00.000Z''" demo_propose_params memory2 fs2, folded demo_store_def]
  from t l obtain hyp fs' where p:
    "proposeHypothesis ''2026-01-01T09:05:00.000Z'' demo_propose_params ?fs
       = Inr (memory\<lparr> hypotheses := hypotheses memory @ [hyp] \<rparr>, fs')"
    "h_status hyp = H_investigating"
    "h_id hyp = ''hyp_'' @ string_of_nat (length (hypotheses memory @ [hyp]))"
    "loadMemory fs' (incident_id memory)
       = Inr (Some (memory\<lparr> hypotheses := hypotheses memory @ [hyp] \<rparr>))"
    by blast
  from p(3) e have h1: "h_id hyp = ''hyp_1''" by (simp add: string_of_nat.simps)
  from t r c obtain m' where m':
    "distinct (map h_id (hypotheses m))"
    "files (run (?ops @ ?later) demo_store) ?q = Some (Document m')"
    "\<forall>i < length (hypotheses m). same_hypothesis (hypotheses m ! i) (hypotheses m' ! i)"
    by blast
  from m'(3) len have sh: "same_hypothesis (hypotheses m ! 0) (hypotheses m' ! 0)"
    "same_hypothesis (hypotheses m ! 1) (hypotheses m' ! 1)" by simp_all
  from t p2 have q2: "loadMemory fs2 (ph_incident_id demo_propose_params) = Inr (Some memory2)"
    "distinct (map h_id (hypotheses memory2))" by blast+
  from l p h1 own r ids m'(1,2) sh p2 q2 ids2 show ?thesis
    by (auto simp: demo_propose_params_def)
qed

section \<open>Order of the timeline\<close>

text \<open>
  \<open>addTimelineEvent\<close> sorts the timeline after it appended the event, with the platform's
  \<open>localeCompare\<close> as the comparison. Where that comparison places timestamps of the one
  shape as the order of the strings does, and the timeline and the new event hold
  timestamps of that shape, the timeline it returns is sorted by timestamp; it always holds
  the entries it held before and the new one. \<open>confirmRootCause\<close> appends its entry and does
  not sort: the timeline it returns is sorted exactly when the timeline was sorted before
  and held no timestamp after the clock reading of the confirmation.
\<close>

lemma set_insert_by: "set (insert_by cmp x ys) = insert x (set ys)"
  by (induction ys) auto

lemma length_insert_by: "length (insert_by cmp x ys) = Suc (length ys)"
  by (induction ys) auto

lemma sorted_insert_by:
  assumes "orders_iso cmp" and "iso_utc (f x)" and "\<forall>y \<in> set ys. iso_utc (f y)"
    and "sorted (map f ys)"
  shows "sorted (map f (insert_by (\<lambda>a b. cmp (f a) (f b)) x ys))"
  using assms(3,4)
proof (induction ys)
  case Nil
  then show ?case by simp
next
  case (Cons y ys)
  from assms(1,2) Cons.prems(1) have le: "cmp (f y) (f x) \<le> 0 \<longleftrightarrow> f y \<le> f x"
    by (simp add: orders_iso_def)
  show ?case
  proof (cases "cmp (f y) (f x) \<le> 0")
    case True
    with le Cons show ?thesis by (auto simp: set_insert_by)
  next
    case False
    with le have "f x \<le> f y" by simp
    with False Cons.prems(2) show ?thesis by auto
  qed
qed

lemma set_foldl_insert_by:
  "set (foldl (\<lambda>acc x. insert_by cmp x acc) acc xs) = set acc \<union> set xs"
  by (induction xs arbitrary: acc) (auto simp: set_insert_by)

lemma length_foldl_insert_by:
  "length (foldl (\<lambda>acc x. insert_by cmp x acc) acc xs) = length acc + length xs"
  by (induction xs arbitrary: acc) (auto simp: length_insert_by)

lemma sorted_foldl_insert_by:
  assumes "orders_iso cmp"
  shows "\<forall>x \<in> set acc \<union> set xs. iso_utc (f x) \<Longrightarrow> sorted (map f acc) \<Longrightarrow>
     sorted (map f (foldl (\<lambda>acc x. insert_by (\<lambda>a b. cmp (f a) (f b)) x acc) acc xs))"
proof (induction xs arbitrary: acc)
  case Nil
  then show ?case by simp
next
  case (Cons x xs)
  from Cons.prems have "sorted (map f (insert_by (\<lambda>a b. cmp (f a) (f b)) x acc))"
    by (intro sorted_insert_by[OF assms]) auto
  moreover from Cons.prems(1)
  have "\<forall>y \<in> set (insert_by (\<lambda>a b. cmp (f a) (f b)) x acc) \<union> set xs. iso_utc (f y)"
    by (auto simp: set_insert_by)
  ultimately show ?case using Cons.IH by simp
qed

lemma sorted_array_sort:
  "orders_iso cmp \<Longrightarrow> \<forall>x \<in> set xs. iso_utc (f x) \<Longrightarrow>
     sorted (map f (array_sort (\<lambda>a b. cmp (f a) (f b)) xs))"
  unfolding array_sort_def by (rule sorted_foldl_insert_by) simp_all

lemma set_array_sort: "set (array_sort cmp xs) = set xs"
  by (simp add: array_sort_def set_foldl_insert_by)

lemma length_array_sort: "length (array_sort cmp xs) = length xs"
  by (simp add: array_sort_def length_foldl_insert_by)

lemma addTimelineEvent_sorts_timeline:
  assumes "orders_iso (localeCompare fs)"
    and "loadMemory fs (e_incident_id params) = Inr (Some memory)"
    and "\<forall>e \<in> set (timeline memory). iso_utc (timestamp e)"
    and "iso_utc (case e_timestamp params of Some t \<Rightarrow> t | None \<Rightarrow> now)"
    and "addTimelineEvent now params fs = Inr (memory', fs')"
  shows "sorted (map timestamp (timeline memory'))"
  using assms
  by (auto simp: addTimelineEvent_def Let_def intro!: sorted_array_sort)

lemma addTimelineEvent_keeps_entries:
  assumes "loadMemory fs (e_incident_id params) = Inr (Some memory)"
    and "addTimelineEvent now params fs = Inr (memory', fs')"
  shows "length (timeline memory') = Suc (length (timeline memory)) \<and>
         set (timeline memory) \<subseteq> set (timeline memory')"
  using assms
  by (auto simp: addTimelineEvent_def Let_def set_array_sort length_array_sort)

lemma confirmRootCause_sorted_iff:
  assumes "loadMemory fs (cr_incident_id params) = Inr (Some memory)"
    and "confirmRootCause now1 now2 params fs = Inr (memory', fs')"
  shows "sorted (map timestamp (timeline memory')) \<longleftrightarrow>
         sorted (map timestamp (timeline memory)) \<and>
         (\<forall>e \<in> set (timeline memory). timestamp e \<le> now2)"
  using assms
  by (auto simp: confirmRootCause_def Let_def sorted_append split: option.splits)

subsection \<open>Along a run\<close>









text \<open>
  The premise on the supplied timestamps is needed. With an event on the timeline whose
  timestamp lies after the clock reading of the confirmation, the timeline is sorted after
  \<open>addTimelineEvent\<close> and is no longer sorted after \<open>confirmRootCause\<close>.
\<close>

lemma confirmRootCause_after_later_stamp:
  "\<not> historical demo_late_event \<and>
   getTimeline (run [demo_create, demo_late_event, demo_propose] demo_store) ''inc_1''
     = Inr [demo_started, demo_late] \<and>
   sorted (map timestamp [demo_started, demo_late]) \<and>
   getTimeline
     (run [demo_create, demo_late_event, demo_propose,
           demo_confirm ''2026-01-01T09:10:00.000Z''] demo_store) ''inc_1''
     = Inr demo_unsorted_timeline \<and>
   \<not> sorted (map timestamp demo_unsorted_timeline)"
  by (simp add: demo_defs op_defs historical_def)

end
